theory Spec2Isabelle
  imports Complex_Main "HOL-Library.Word" "HOL-Library.AList"
begin

section \<open>Data model of \<open>KeypointObjectDetector\<close>\<close>

text \<open>
  The detector of \<^verbatim>\<open>dodo_detector/KeypointObjectDetector.py\<close> is embedded function by
  function. A leading underscore of a Python name is dropped (\<open>_detect_object\<close> is
  \<open>detect_object\<close>), \<open>__init__\<close> is \<open>init\<close>.

  Numbers: Python integers are \<open>int\<close>; the values of a \<open>numpy.int32\<close> array are
  \<open>32 word\<close>, read with \<open>sint\<close>, so that \<open>-\<close>, \<open>+\<close> and \<open>*\<close> on them wrap as numpy's
  scalar arithmetic does. Match distances and keypoint coordinates are idealised as
  \<open>real\<close>. A descriptor entry is a \<open>float32\<close> value, written as the real number it
  denotes, and the arithmetic of \<open>_rootsift\<close> on descriptors rounds every result to
  \<open>float32\<close> (\<open>fl32\<close> below).
\<close>

datatype py_error =
    KeyError | IndexError | AttributeError | TypeError | OSError | CvError

type_synonym int32 = "32 word"
type_synonym point = "real \<times> real"
type_synonym descriptors = "real list list"
type_synonym matrix = "real list list"
type_synonym polygon = "(int32 \<times> int32) list"
type_synonym rect = "int32 \<times> int32 \<times> int32 \<times> int32"

text \<open>\<open>cv2.KeyPoint\<close>: only \<open>pt\<close> is read by the detector.\<close>

record keypoint =
  pt :: point
  kp_size :: real
  angle :: real

text \<open>\<open>cv2.DMatch\<close>.\<close>

record dmatch =
  queryIdx :: int
  trainIdx :: int
  distance :: real

text \<open>What the detector draws on a frame: \<open>cv2.polylines\<close> and \<open>cv2.putText\<close>. The text
  of a label is \<open>object_name + ': ' + str(counter)\<close>; its two variable parts are kept.\<close>

datatype drawing =
    Polylines polygon
  | PutText string int "int32 \<times> int32"

text \<open>An image as \<open>cv2.imread\<close> returns it: \<open>shape\<close> is (rows, columns, channels).\<close>

record image =
  shape :: "int \<times> int \<times> int"
  raster :: "nat list"
  drawn :: "drawing list"

type_synonym feature = "image \<times> keypoint list \<times> descriptors option"

datatype cv_detector = SIFT_create | SURF_create
datatype cv_matcher = BFMatcher | FlannBasedMatcher

text \<open>
  The collaborators outside the repository (the file system, OpenCV and numpy's float to
  \<open>int32\<close> conversion) are parameters of the model. \<open>cv2.imread\<close> returns \<open>None\<close> for a
  file it cannot read; \<open>detectAndCompute\<close> returns \<open>None\<close> descriptors when it finds no
  keypoint; \<open>cv2.findHomography\<close> returns \<open>None\<close> for the matrix when the estimation
  fails; \<open>cv2.perspectiveTransform\<close> transforms point by point.
\<close>

record env =
  listdir :: "string \<Rightarrow> py_error + string list"
  isfile :: "string \<Rightarrow> bool"
  isdir :: "string \<Rightarrow> bool"
  imread :: "string \<Rightarrow> image option"
  resize :: "image \<Rightarrow> real \<Rightarrow> real \<Rightarrow> image"
  detectAndCompute :: "cv_detector \<Rightarrow> image \<Rightarrow> keypoint list \<times> descriptors option"
  knnMatch :: "cv_matcher \<Rightarrow> descriptors \<Rightarrow> descriptors \<Rightarrow> dmatch list list"
  findHomography :: "point list \<Rightarrow> point list \<Rightarrow> matrix option"
  transform_point :: "matrix \<Rightarrow> point \<Rightarrow> point"
  np_int32 :: "real \<Rightarrow> int32"

text \<open>The instance (\<open>self\<close>). \<open>detector\<close> and \<open>matcher\<close> are \<open>None\<close> when \<open>__init__\<close>
  never assigned the attribute. \<open>object_features\<close> is a dictionary that is iterated, so
  it keeps its insertion order: an association list.\<close>

record kod =
  current_frame :: int
  detector_type :: string
  database_path :: string
  min_points :: int
  detector :: "cv_detector option"
  matcher :: "cv_matcher option"
  objects :: "string list"
  min_object_height :: int
  min_object_width :: int
  min_object_area :: int
  object_counters :: "string \<rightharpoonup> int"
  object_features :: "(string \<times> feature list) list"

section \<open>\<open>float32\<close> arithmetic\<close>

text \<open>
  IEEE 754 binary32, round to nearest, ties to even: a value is an integer of at most 24
  bits times a power of two, \<open>pow2 (e - 23)\<close> with \<open>e\<close> the exponent of the value and at
  least -126 (below \<open>pow2 (-126)\<close> the values are the subnormal ones, spaced
  \<open>pow2 (-149)\<close>). \<open>fl32 x\<close> is the \<open>float32\<close> nearest to the real \<open>x\<close>. The model has no
  infinity and no NaN: beyond the largest finite \<open>float32\<close>, where numpy gives \<open>inf\<close>,
  \<open>fl32\<close> keeps rounding to 24 bits, so the properties below are stated for values in
  range only.
\<close>

definition pow2 :: "int \<Rightarrow> real" where
  "pow2 e = (if 0 \<le> e then 2 ^ nat e else 1 / 2 ^ nat (- e))"

definition rne :: "real \<Rightarrow> int" where
  "rne y =
     (let f = \<lfloor>y\<rfloor>; r = y - of_int f
      in if r < 1 / 2 then f else if 1 / 2 < r then f + 1
         else if even f then f else f + 1)"

definition expo32 :: "real \<Rightarrow> int" where
  "expo32 x = max (- 126) \<lfloor>log 2 \<bar>x\<bar>\<rfloor>"

definition fl32 :: "real \<Rightarrow> real" where
  "fl32 x =
     (if x = 0 then 0
      else of_int (rne (x / pow2 (expo32 x - 23))) * pow2 (expo32 x - 23))"

definition add32 :: "real \<Rightarrow> real \<Rightarrow> real" where
  "add32 a b = fl32 (a + b)"

definition div32 :: "real \<Rightarrow> real \<Rightarrow> real" where
  "div32 a b = fl32 (a / b)"

text \<open>
  \<open>descs.sum(axis=1)\<close> adds each row with numpy's pairwise summation: fewer than 8
  values from left to right; up to 128 values in 8 accumulators, each taking every
  eighth value, that are then added as a tree, and the values after the last whole block of 8
  are added one by one; more than 128 values in two parts, the first of half the
  length rounded down to a multiple of 8.
\<close>

definition seq_sum :: "real \<Rightarrow> real list \<Rightarrow> real" where
  "seq_sum res xs = foldl add32 res xs"

fun acc8 :: "real list \<Rightarrow> real list \<Rightarrow> real list" where
  "acc8 r xs =
     (if length xs < 8 then r
      else acc8 (map2 add32 r (take 8 xs)) (drop 8 xs))"

definition tree8 :: "real list \<Rightarrow> real" where
  "tree8 r =
     add32 (add32 (add32 (r ! 0) (r ! 1)) (add32 (r ! 2) (r ! 3)))
           (add32 (add32 (r ! 4) (r ! 5)) (add32 (r ! 6) (r ! 7)))"

function pairwise_sum :: "real list \<Rightarrow> real" where
  "pairwise_sum a =
     (if length a < 8 then seq_sum 0 a
      else if length a \<le> 128 then
        seq_sum (tree8 (acc8 (take 8 a) (drop 8 a))) (drop (length a - length a mod 8) a)
      else
        add32 (pairwise_sum (take (length a div 2 - (length a div 2) mod 8) a))
              (pairwise_sum (drop (length a div 2 - (length a div 2) mod 8) a)))"
  by pat_completeness auto
termination
  by (relation "measure length") auto

declare pairwise_sum.simps [simp del]

section \<open>\<open>_rootsift\<close>\<close>

text \<open>\<open>eps = 1e-7\<close> is a Python float; added to a \<open>float32\<close> array it is taken as the
  \<open>float32\<close> nearest to it.\<close>

definition eps :: real where
  "eps = 1 / 10000000"

definition eps32 :: real where
  "eps32 = fl32 eps"

text \<open>\<open>descs /= (descs.sum(axis=1, keepdims=True) + eps)\<close>, row by row: the sum, the
  addition of \<open>eps\<close> and the in-place division are \<open>float32\<close> operations.\<close>

definition l1_row :: "real list \<Rightarrow> real list" where
  "l1_row row = map (\<lambda>x. div32 x (add32 (pairwise_sum row) eps32)) row"

definition l1_normalize :: "descriptors \<Rightarrow> descriptors" where
  "l1_normalize descs = map l1_row descs"

text \<open>\<open>np.sqrt\<close> on the \<open>float32\<close> array; the entries of a histogram are not negative.\<close>

definition rootsift :: "keypoint list \<Rightarrow> descriptors \<Rightarrow> keypoint list \<times> descriptors" where
  "rootsift kps descs = (kps, map (map (\<lambda>x. fl32 (sqrt x))) (l1_normalize descs))"

text \<open>The call sites pass what \<open>detectAndCompute\<close> returned when there is a keypoint;
  on \<open>None\<close> the call \<open>descs.sum\<close> raises \<open>AttributeError\<close>.\<close>

definition apply_rootsift ::
  "string \<Rightarrow> keypoint list \<times> descriptors option \<Rightarrow> py_error + keypoint list \<times> descriptors option" where
  "apply_rootsift dtype kd =
     (case kd of (kps, descs) \<Rightarrow>
        if dtype = ''RootSIFT'' \<and> length kps > 0 then
          (case descs of
             None \<Rightarrow> Inl AttributeError
           | Some d \<Rightarrow> (case rootsift kps d of (kps', d') \<Rightarrow> Inr (kps', Some d')))
        else Inr (kps, descs))"

section \<open>\<open>_extract_rectangle\<close>\<close>

definition smin :: "int32 \<Rightarrow> int32 \<Rightarrow> int32" where
  "smin a b = (if sint b < sint a then b else a)"

definition smax :: "int32 \<Rightarrow> int32 \<Rightarrow> int32" where
  "smax a b = (if sint a < sint b then b else a)"

text \<open>\<open>min(dst[x, 0][1] for x in range(4))\<close> and its three siblings; \<open>dst[x, 0]\<close> raises
  \<open>IndexError\<close> when the array has fewer than four points.\<close>

definition extract_rectangle :: "polygon \<Rightarrow> py_error + rect" where
  "extract_rectangle dst =
     (if length dst < 4 then Inl IndexError
      else
        let ys = map snd (take 4 dst);
            xs = map fst (take 4 dst);
            min_y = foldl smin (hd ys) (tl ys);
            max_y = foldl smax (hd ys) (tl ys);
            min_x = foldl smin (hd xs) (tl xs);
            max_x = foldl smax (hd xs) (tl xs)
        in Inr (min_x, min_y, max_x - min_x, max_y - min_y))"

section \<open>\<open>_detect_object\<close>\<close>

text \<open>Lines 109 to 114: the ratio test over the lists that \<open>knnMatch\<close> returned.\<close>

fun good_matches :: "dmatch list list \<Rightarrow> dmatch list" where
  "good_matches [] = []"
| "good_matches (match # matches) =
     (if length match = 2 then
        (let m = match ! 0; n = match ! 1
         in if distance m < 0.7 * distance n
            then m # good_matches matches
            else good_matches matches)
      else good_matches matches)"

text \<open>Subscription \<open>xs[i]\<close> of a Python sequence: \<open>i\<close> from \<open>-len(xs)\<close> up to \<open>-1\<close>
  addresses the element \<open>len(xs) + i\<close>; outside \<open>-len(xs) .. len(xs) - 1\<close> it raises.\<close>

definition py_index :: "'a list \<Rightarrow> int \<Rightarrow> py_error + 'a" where
  "py_index xs i =
     (if 0 \<le> i \<and> i < int (length xs) then Inr (xs ! nat i)
      else if i < 0 \<and> - int (length xs) \<le> i then Inr (xs ! nat (int (length xs) + i))
      else Inl IndexError)"

text \<open>\<open>[kp[i].pt for i in idxs]\<close>.\<close>

fun points_at :: "keypoint list \<Rightarrow> int list \<Rightarrow> py_error + point list" where
  "points_at kp [] = Inr []"
| "points_at kp (i # idxs) =
     (case py_index kp i of
        Inl e \<Rightarrow> Inl e
      | Inr k \<Rightarrow> (case points_at kp idxs of
                   Inl e \<Rightarrow> Inl e
                 | Inr ps \<Rightarrow> Inr (pt k # ps)))"

text \<open>\<open>cv2.perspectiveTransform(pts, M)\<close>. With \<open>M = None\<close> OpenCV receives an empty
  matrix and its assertion on the matrix's columns fails: \<open>cv2.error\<close>.\<close>

definition perspectiveTransform :: "env \<Rightarrow> point list \<Rightarrow> matrix option \<Rightarrow> py_error + point list" where
  "perspectiveTransform E pts M =
     (case M of None \<Rightarrow> Inl CvError | Some m \<Rightarrow> Inr (map (transform_point E m) pts))"

text \<open>The size test of line 140, on \<open>numpy.int32\<close> values against Python integers.\<close>

definition too_small :: "kod \<Rightarrow> int32 \<Rightarrow> int32 \<Rightarrow> bool" where
  "too_small self w h \<longleftrightarrow>
     sint w < min_object_width self \<or> sint h < min_object_height self
     \<or> sint (w * h) < min_object_area self"

text \<open>Lines 124 to 127: the template's \<open>(w, h)\<close>, from the reference image's shape or
  from \<open>coordinates\<close>.\<close>

definition template_size :: "image \<Rightarrow> (real \<times> real \<times> real \<times> real) option \<Rightarrow> real \<times> real" where
  "template_size obj_img coordinates =
     (case coordinates of
        None \<Rightarrow> (case shape obj_img of (h, w, c) \<Rightarrow> (real_of_int w, real_of_int h))
      | Some (_, _, w, h) \<Rightarrow> (w, h))"

text \<open>Lines 119 to 144, the rest of the branch \<open>len(good) > self.min_points\<close> after the
  counter's increment. \<open>Inr None\<close> is the \<open>break\<close>, which reaches \<open>return None, None\<close>.\<close>

definition localize ::
  "env \<Rightarrow> kod \<Rightarrow> image \<Rightarrow> keypoint list \<Rightarrow> keypoint list \<Rightarrow> dmatch list
     \<Rightarrow> (real \<times> real \<times> real \<times> real) option \<Rightarrow> py_error + (polygon \<times> rect) option" where
  "localize E self obj_img kp scene_kp good coordinates =
     (case points_at kp (map queryIdx good) of
        Inl e \<Rightarrow> Inl e
      | Inr src_pts \<Rightarrow>
     (case points_at scene_kp (map trainIdx good) of
        Inl e \<Rightarrow> Inl e
      | Inr dst_pts \<Rightarrow>
     (let M = findHomography E src_pts dst_pts;
          (w, h) = template_size obj_img coordinates;
          pts = [(0, 0), (0, h - 1), (w - 1, h - 1), (w - 1, 0)]
      in case perspectiveTransform E pts M of
           Inl e \<Rightarrow> Inl e
         | Inr tp \<Rightarrow>
        (let dst = map (\<lambda>(x, y). (np_int32 E x, np_int32 E y)) tp
         in case extract_rectangle dst of
              Inl e \<Rightarrow> Inl e
            | Inr (x, y, w, h) \<Rightarrow>
                if too_small self w h then Inr None
                else Inr (Some (dst, (x, y, w, h)))))))"

text \<open>\<open>self.object_counters[name] += 1\<close>.\<close>

definition increment_counter :: "kod \<Rightarrow> string \<Rightarrow> py_error + kod" where
  "increment_counter self name =
     (case object_counters self name of
        None \<Rightarrow> Inl KeyError
      | Some c \<Rightarrow> Inr (self\<lparr>object_counters := (object_counters self)(name \<mapsto> c + 1)\<rparr>))"

definition has_rows :: "descriptors option \<Rightarrow> bool" where
  "has_rows des \<longleftrightarrow> (case des of None \<Rightarrow> False | Some d \<Rightarrow> length d > 0)"

text \<open>The loop over \<open>img_features\<close>. The result is the instance after the call and what
  the call returned: \<open>Inr None\<close> is \<open>(None, None)\<close>, \<open>Inr (Some (dst, [x, y, w, h]))\<close> a
  localization, \<open>Inl e\<close> a raised exception.\<close>

fun detect_object ::
  "env \<Rightarrow> kod \<Rightarrow> string \<Rightarrow> feature list \<Rightarrow> image \<times> keypoint list \<times> descriptors option
     \<Rightarrow> (real \<times> real \<times> real \<times> real) option \<Rightarrow> kod \<times> (py_error + (polygon \<times> rect) option)" where
  "detect_object E self name [] scene coordinates = (self, Inr None)"
| "detect_object E self name ((obj_img, kp, des) # img_features) (scene_img, scene_kp, scene_des) coordinates =
     (if has_rows des \<and> has_rows scene_des then
        (case matcher self of
           None \<Rightarrow> (self, Inl AttributeError)
         | Some mt \<Rightarrow>
             (let matches = knnMatch E mt (the des) (the scene_des);
                  good = good_matches matches
              in if int (length good) > min_points self then
                   (case increment_counter self name of
                      Inl e \<Rightarrow> (self, Inl e)
                    | Inr self' \<Rightarrow> (self', localize E self' obj_img kp scene_kp good coordinates))
                 else detect_object E self name img_features (scene_img, scene_kp, scene_des) coordinates))
      else detect_object E self name img_features (scene_img, scene_kp, scene_des) coordinates)"

section \<open>\<open>_load_features\<close> and \<open>__init__\<close>\<close>

text \<open>\<open>os.path.join\<close> of two components and \<open>os.path.basename\<close>, on POSIX paths.\<close>

definition join_path :: "string \<Rightarrow> string \<Rightarrow> string" where
  "join_path a b =
     (if b \<noteq> [] \<and> hd b = CHR ''/'' then b
      else if a = [] \<or> last a = CHR ''/'' then a @ b
      else a @ ''/'' @ b)"

definition basename :: "string \<Rightarrow> string" where
  "basename p = rev (takeWhile (\<lambda>c. c \<noteq> CHR ''/'') (rev p))"

text \<open>Lines 87 and 88.\<close>

definition scale_down :: "env \<Rightarrow> image \<Rightarrow> image" where
  "scale_down E img =
     (if fst (shape img) > 1000 then resize E img (3 / 10) (3 / 10) else img)"

text \<open>The body of the loop over \<open>img_files\<close>. \<open>img.shape\<close> on the \<open>None\<close> of an
  unreadable file raises \<open>AttributeError\<close>, as does \<open>self.detector\<close> when it was never
  assigned.\<close>

definition load_image :: "env \<Rightarrow> kod \<Rightarrow> string \<Rightarrow> py_error + feature" where
  "load_image E self img_file =
     (case imread E img_file of
        None \<Rightarrow> Inl AttributeError
      | Some img0 \<Rightarrow>
          (let img = scale_down E img0
           in case detector self of
                None \<Rightarrow> Inl AttributeError
              | Some d \<Rightarrow>
                  (case apply_rootsift (detector_type self) (detectAndCompute E d img) of
                     Inl e \<Rightarrow> Inl e
                   | Inr (kps, descs) \<Rightarrow> Inr (img, kps, descs))))"

fun load_images :: "env \<Rightarrow> kod \<Rightarrow> string list \<Rightarrow> py_error + feature list" where
  "load_images E self [] = Inr []"
| "load_images E self (img_file # img_files) =
     (case load_image E self img_file of
        Inl e \<Rightarrow> Inl e
      | Inr f \<Rightarrow> (case load_images E self img_files of
                   Inl e \<Rightarrow> Inl e
                 | Inr fs \<Rightarrow> Inr (f # fs)))"

definition load_features :: "env \<Rightarrow> kod \<Rightarrow> string \<Rightarrow> py_error + feature list" where
  "load_features E self object_name =
     (let dir = database_path self @ object_name @ ''/''
      in case listdir E dir of
           Inl e \<Rightarrow> Inl e
         | Inr fs \<Rightarrow>
             load_images E self
               (map (join_path dir) (filter (\<lambda>f. isfile E (join_path dir f)) fs)))"

text \<open>Lines 59 and 60: \<open>self.object_features[obj] = self._load_features(obj)\<close>.\<close>

fun load_all :: "env \<Rightarrow> kod \<Rightarrow> string list \<Rightarrow> py_error + kod" where
  "load_all E self [] = Inr self"
| "load_all E self (obj # objs) =
     (case load_features E self obj of
        Inl e \<Rightarrow> Inl e
      | Inr fs \<Rightarrow>
          load_all E (self\<lparr>object_features := AList.update obj fs (object_features self)\<rparr>) objs)"

text \<open>Line 43.\<close>

definition object_classes :: "string list \<Rightarrow> string list" where
  "object_classes ds = map basename (filter (\<lambda>d. d \<noteq> ''IGNORE'') ds)"

text \<open>Lines 51 to 53.\<close>

definition zero_counters :: "string list \<Rightarrow> (string \<rightharpoonup> int)" where
  "zero_counters obs = fold (\<lambda>ob m. m(ob \<mapsto> 0)) obs Map.empty"

definition init :: "env \<Rightarrow> string \<Rightarrow> string \<Rightarrow> string \<Rightarrow> py_error + kod" where
  "init E dbpath dtype mtype =
     (case listdir E dbpath of
        Inl e \<Rightarrow> Inl e
      | Inr ds \<Rightarrow>
          load_all E
            \<lparr>current_frame = 0,
             detector_type = dtype,
             database_path = dbpath,
             min_points = 200,
             detector = (if dtype \<in> set [''SIFT'', ''RootSIFT''] then Some SIFT_create
                         else if dtype = ''SURF'' then Some SURF_create else None),
             matcher = (if mtype = ''BF'' then Some BFMatcher
                        else if mtype = ''FLANN'' then Some FlannBasedMatcher else None),
             objects = object_classes ds,
             min_object_height = 10,
             min_object_width = 10,
             min_object_area = 10 * 10,
             object_counters = zero_counters (object_classes ds),
             object_features = []\<rparr>
            (object_classes ds))"

section \<open>\<open>from_image\<close>\<close>

type_synonym box = "int32 \<times> int32 \<times> int32 \<times> int32"

text \<open>Lines 164 to 179, for a localization that \<open>_detect_object\<close> returned. The polygon
  has four points there, so \<open>homography[0][0]\<close> and \<open>homography[1][1]\<close> are in range;
  \<open>obj_features[0]\<close> is the indexing of a string.\<close>

definition record_detection ::
  "kod \<Rightarrow> string \<Rightarrow> polygon \<Rightarrow> rect \<Rightarrow> image \<Rightarrow> (string \<rightharpoonup> box list)
     \<Rightarrow> py_error + image \<times> (string \<rightharpoonup> box list)" where
  "record_detection self obj_features homography rct frame detected_objects =
     (case rct of (x, y, w, h) \<Rightarrow>
        (let ymin = y; xmin = x; ymax = y + h; xmax = x + w
         in case py_index obj_features 0 of
              Inl e \<Rightarrow> Inl e
            | Inr ch \<Rightarrow>
                (let object_name = [ch];
                     detected1 = (if object_name \<notin> dom detected_objects
                                  then detected_objects(object_name \<mapsto> [])
                                  else detected_objects);
                     detected2 = detected1(object_name \<mapsto>
                                   the (detected1 object_name) @ [(ymin, xmin, ymax, xmax)]);
                     text_point = (fst (homography ! 0), snd (homography ! 1));
                     frame1 = frame\<lparr>drawn := drawn frame @ [Polylines homography]\<rparr>
                 in case object_counters self object_name of
                      None \<Rightarrow> Inl KeyError
                    | Some c \<Rightarrow>
                        Inr (frame1\<lparr>drawn := drawn frame1 @ [PutText object_name c text_point]\<rparr>,
                             detected2))))"

text \<open>The loop over the keys of \<open>self.object_features\<close>. The result is the instance
  after the call and what the call returned or raised; when it raises, what was already
  drawn on the frame is not part of the result.\<close>

fun from_image_loop ::
  "env \<Rightarrow> kod \<Rightarrow> string list \<Rightarrow> keypoint list \<Rightarrow> descriptors option \<Rightarrow> image
     \<Rightarrow> (string \<rightharpoonup> box list) \<Rightarrow> kod \<times> (py_error + image \<times> (string \<rightharpoonup> box list))" where
  "from_image_loop E self [] scene_kp scene_des frame detected_objects =
     (self, Inr (frame, detected_objects))"
| "from_image_loop E self (obj_features # keys) scene_kp scene_des frame detected_objects =
     (case map_of (object_features self) obj_features of
        None \<Rightarrow> (self, Inl KeyError)
      | Some features \<Rightarrow>
          (case detect_object E self obj_features features (frame, scene_kp, scene_des) None of
             (self', Inl e) \<Rightarrow> (self', Inl e)
           | (self', Inr None) \<Rightarrow>
               from_image_loop E self' keys scene_kp scene_des frame detected_objects
           | (self', Inr (Some (homography, rct))) \<Rightarrow>
               (case record_detection self' obj_features homography rct frame detected_objects of
                  Inl e \<Rightarrow> (self', Inl e)
                | Inr (frame', detected') \<Rightarrow>
                    from_image_loop E self' keys scene_kp scene_des frame' detected')))"

definition from_image ::
  "env \<Rightarrow> kod \<Rightarrow> image \<Rightarrow> kod \<times> (py_error + image \<times> (string \<rightharpoonup> box list))" where
  "from_image E self0 frame =
     (let self = self0\<lparr>current_frame := current_frame self0 + 1\<rparr>
      in case detector self of
           None \<Rightarrow> (self, Inl AttributeError)
         | Some d \<Rightarrow>
             (case apply_rootsift (detector_type self) (detectAndCompute E d frame) of
                Inl e \<Rightarrow> (self, Inl e)
              | Inr (scene_kp, scene_des) \<Rightarrow>
                  from_image_loop E self (map fst (object_features self))
                    scene_kp scene_des frame Map.empty))"

section \<open>Derived notions used by the properties\<close>

text \<open>The condition under which the loop of \<open>_detect_object\<close> enters the branch of
  line 117 for a reference image: the guard of line 106 and the count of line 117.\<close>

definition passes_threshold ::
  "env \<Rightarrow> kod \<Rightarrow> feature \<Rightarrow> image \<times> keypoint list \<times> descriptors option \<Rightarrow> bool" where
  "passes_threshold E self f scene \<longleftrightarrow>
     (case f of (obj_img, kp, des) \<Rightarrow>
      case scene of (scene_img, scene_kp, scene_des) \<Rightarrow>
        has_rows des \<and> has_rows scene_des \<and>
        (case matcher self of
           None \<Rightarrow> False
         | Some mt \<Rightarrow>
             int (length (good_matches (knnMatch E mt (the des) (the scene_des)))) > min_points self))"

text \<open>\<open>self'\<close> is \<open>self\<close> after one \<open>self.object_counters[name] += 1\<close>.\<close>

definition bumped :: "kod \<Rightarrow> string \<Rightarrow> kod \<Rightarrow> bool" where
  "bumped self name self' \<longleftrightarrow>
     (\<exists>c. object_counters self name = Some c
          \<and> self' = self\<lparr>object_counters := (object_counters self)(name \<mapsto> c + 1)\<rparr>)"

text \<open>A caller that presents one scene after another: the calls of \<open>_detect_object\<close>
  made for one class, with what each returned.\<close>

fun detect_frames ::
  "env \<Rightarrow> kod \<Rightarrow> string \<Rightarrow> feature list \<Rightarrow> (image \<times> keypoint list \<times> descriptors option) list
     \<Rightarrow> kod \<times> (py_error + (polygon \<times> rect) option) list" where
  "detect_frames E self name feats [] = (self, [])"
| "detect_frames E self name feats (scene # scenes) =
     (case detect_object E self name feats scene None of
        (self', r) \<Rightarrow>
          (case detect_frames E self' name feats scenes of
             (self'', rs) \<Rightarrow> (self'', r # rs)))"

text \<open>The words of the specification: the largest dimension of an image, and the
  immediate subdirectories among the entries of a directory.\<close>

definition largest_dimension :: "image \<Rightarrow> int" where
  "largest_dimension img = (case shape img of (h, w, c) \<Rightarrow> max h w)"

definition subdirectory_names :: "env \<Rightarrow> string \<Rightarrow> string list \<Rightarrow> string list" where
  "subdirectory_names E dbroot ds = filter (\<lambda>d. isdir E (join_path dbroot d)) ds"

section \<open>A concrete environment\<close>

text \<open>
  One file system and one set of OpenCV answers, for evaluating the detector on concrete
  inputs. Every image yields 250 keypoints; every query descriptor has a best neighbour at
  distance 0 and a second one at distance 1, as for a scene equal to the reference image.
  \<open>project\<close> is the projective map of a 3 by 3 matrix, \<open>trunc32\<close> the conversion to
  \<open>int32\<close>, which drops the fraction of a value in range and gives the least \<open>int32\<close>
  for a value out of range.
\<close>

definition project :: "matrix \<Rightarrow> point \<Rightarrow> point" where
  "project M p =
     (case p of (x, y) \<Rightarrow>
        (let r = (\<lambda>i j. M ! i ! j);
             d = r 2 0 * x + r 2 1 * y + r 2 2
         in ((r 0 0 * x + r 0 1 * y + r 0 2) / d, (r 1 0 * x + r 1 1 * y + r 1 2) / d)))"

definition trunc32 :: "real \<Rightarrow> int32" where
  "trunc32 r =
     (let t = (if 0 \<le> r then \<lfloor>r\<rfloor> else \<lceil>r\<rceil>)
      in if - 2147483648 \<le> t \<and> t \<le> 2147483647 then word_of_int t
         else word_of_int (- 2147483648))"

definition demo_kps :: "keypoint list" where
  "demo_kps = map (\<lambda>i. \<lparr>pt = (real i, real i), kp_size = 1, angle = 0\<rparr>) [0..<250]"

definition demo_des :: descriptors where
  "demo_des = map (\<lambda>i. [real i, 1]) [0..<250]"

definition demo_matches :: "dmatch list list" where
  "demo_matches =
     map (\<lambda>i. [\<lparr>queryIdx = int i, trainIdx = int i, distance = 0\<rparr>,
                \<lparr>queryIdx = int i, trainIdx = int ((i + 1) mod 250), distance = 1\<rparr>]) [0..<250]"

definition mug_img :: image where
  "mug_img = \<lparr>shape = (480, 640, 3), raster = [], drawn = []\<rparr>"

definition wide_img :: image where
  "wide_img = \<lparr>shape = (500, 2000, 3), raster = [], drawn = []\<rparr>"

definition tall_img :: image where
  "tall_img = \<lparr>shape = (2000, 500, 3), raster = [], drawn = []\<rparr>"

definition demo_dirs :: "(string \<times> string list) list" where
  "demo_dirs =
     [(''db/'', [''mug'', ''IGNORE'']),
      (''db/mug/'', [''mug1.png'']),
      (''db/IGNORE/'', [''old.png'']),
      (''db2/'', [''mug'', ''m'']),
      (''db2/mug/'', [''mug1.png'']),
      (''db2/m/'', []),
      (''data/'', [''mug'', ''notes.txt'']),
      (''data/mug/'', [''mug1.png'']),
      (''top'', [''x'']),
      (''topx/'', []),
      (''wide/'', [''poster'']),
      (''wide/poster/'', [''p.png'', ''t.png''])]"

definition demo_files :: "(string \<times> image) list" where
  "demo_files =
     [(''db/mug/mug1.png'', mug_img),
      (''db/IGNORE/old.png'', mug_img),
      (''db2/mug/mug1.png'', mug_img),
      (''data/mug/mug1.png'', mug_img),
      (''wide/poster/p.png'', wide_img),
      (''wide/poster/t.png'', tall_img)]"

definition demo_env :: env where
  "demo_env =
     \<lparr>listdir = (\<lambda>p. case map_of demo_dirs p of None \<Rightarrow> Inl OSError | Some fs \<Rightarrow> Inr fs),
      isfile = (\<lambda>p. p \<in> set (map fst demo_files) \<or> p \<in> set [''data/notes.txt'', ''top/x'']),
      isdir = (\<lambda>p. p \<in> set [''db/'', ''db/mug'', ''db/IGNORE'', ''db2/'', ''db2/mug'', ''db2/m'',
                               ''data/'', ''data/mug'', ''top'', ''topx'', ''wide/'', ''wide/poster'']),
      imread = map_of demo_files,
      resize = (\<lambda>img fx fy. case shape img of (h, w, c) \<Rightarrow>
                  img\<lparr>shape := (round (fy * real_of_int h), round (fx * real_of_int w), c)\<rparr>),
      detectAndCompute = (\<lambda>d img. (demo_kps, Some demo_des)),
      knnMatch = (\<lambda>mt des scene_des. demo_matches),
      findHomography = (\<lambda>src dst. Some [[1, 0, 0], [0, 1, 0], [0, 0, 1]]),
      transform_point = project,
      np_int32 = trunc32\<rparr>"

text \<open>The estimated homography maps the reference image onto a hundredth of its size.\<close>

definition shrink_env :: env where
  "shrink_env = demo_env\<lparr>findHomography := (\<lambda>src dst. Some [[1 / 100, 0, 0], [0, 1 / 100, 0], [0, 0, 1]])\<rparr>"

text \<open>The estimation of the homography fails.\<close>

definition degenerate_env :: env where
  "degenerate_env = demo_env\<lparr>findHomography := (\<lambda>src dst. None)\<rparr>"

text \<open>Only 200 query descriptors have neighbours.\<close>

definition sparse_env :: env where
  "sparse_env = demo_env\<lparr>knnMatch := (\<lambda>mt des scene_des. take 200 demo_matches)\<rparr>"

definition mug_features :: "feature list" where
  "mug_features = [(mug_img, demo_kps, Some (snd (rootsift demo_kps demo_des)))]"

definition mug_scene :: "image \<times> keypoint list \<times> descriptors option" where
  "mug_scene = (mug_img, demo_kps, Some (snd (rootsift demo_kps demo_des)))"

text \<open>The instance that \<open>KeypointObjectDetector('db/')\<close> constructs in \<open>demo_env\<close>.\<close>

definition mug_detector :: kod where
  "mug_detector =
     \<lparr>current_frame = 0, detector_type = ''RootSIFT'', database_path = ''db/'',
      min_points = 200, detector = Some SIFT_create, matcher = Some BFMatcher,
      objects = [''mug''], min_object_height = 10, min_object_width = 10,
      min_object_area = 100, object_counters = [''mug'' \<mapsto> 0],
      object_features = [(''mug'', mug_features)]\<rparr>"

text \<open>The instance that \<open>KeypointObjectDetector('db2/')\<close> constructs in \<open>demo_env\<close>: the
  classes \<open>mug\<close> and \<open>m\<close>, the second without reference image.\<close>

definition two_detector :: kod where
  "two_detector =
     \<lparr>current_frame = 0, detector_type = ''RootSIFT'', database_path = ''db2/'',
      min_points = 200, detector = Some SIFT_create, matcher = Some BFMatcher,
      objects = [''mug'', ''m''], min_object_height = 10, min_object_width = 10,
      min_object_area = 100, object_counters = [''mug'' \<mapsto> 0, ''m'' \<mapsto> 0],
      object_features = [(''mug'', mug_features), (''m'', [])]\<rparr>"

text \<open>The instance that \<open>KeypointObjectDetector('top')\<close> constructs in \<open>demo_env\<close>,
  where \<open>top\<close> holds the regular file \<open>x\<close> and \<open>topx\<close> is an empty directory beside it.\<close>

definition stray_detector :: kod where
  "stray_detector =
     \<lparr>current_frame = 0, detector_type = ''RootSIFT'', database_path = ''top'',
      min_points = 200, detector = Some SIFT_create, matcher = Some BFMatcher,
      objects = [''x''], min_object_height = 10, min_object_width = 10,
      min_object_area = 100, object_counters = [''x'' \<mapsto> 0],
      object_features = [(''x'', [])]\<rparr>"

text \<open>\<open>mug_detector\<close> with the reference image of the class stored twice.\<close>

definition twice_detector :: kod where
  "twice_detector = mug_detector\<lparr>object_features := [(''mug'', mug_features @ mug_features)]\<rparr>"

definition mug_polygon :: polygon where
  "mug_polygon = [(0, 0), (0, 479), (639, 479), (639, 0)]"

section \<open>Auxiliary facts\<close>

lemma good_matches_filter:
  "good_matches matches =
     map (\<lambda>match. match ! 0)
       (filter (\<lambda>match. length match = 2 \<and> distance (match ! 0) < 0.7 * distance (match ! 1)) matches)"
  by (induction matches) (simp_all add: Let_def)

lemma pow2_powr: "pow2 e = 2 powr (of_int e)"
  by (simp add: pow2_def powr_real_of_int inverse_eq_divide)

lemma pow2_pos: "0 < pow2 e"
  by (simp add: pow2_powr)

lemma pow2_add: "pow2 (a + b) = pow2 a * pow2 b"
  by (simp add: pow2_powr powr_add)

lemma pow2_less_iff: "pow2 a < pow2 b \<longleftrightarrow> a < b"
proof -
  have "(2::real) powr (of_int a) < 2 powr (of_int b) \<longleftrightarrow> real_of_int a < real_of_int b"
    by (rule powr_less_cancel_iff) simp
  then show ?thesis by (simp add: pow2_powr)
qed

lemma pow2_le_iff: "pow2 a \<le> pow2 b \<longleftrightarrow> a \<le> b"
  using pow2_less_iff [of b a] by (auto simp: not_less [symmetric])

lemma scaled_error: "0 < p \<Longrightarrow> \<bar>k * p - x\<bar> = \<bar>k - x / p\<bar> * (p::real)"
proof -
  assume p: "0 < p"
  then have "k * p - x = (k - x / p) * p" by (simp add: field_simps)
  then have "\<bar>k * p - x\<bar> = \<bar>k - x / p\<bar> * \<bar>p\<bar>" by (simp only: abs_mult)
  with p show ?thesis by simp
qed

lemma rne_error: "\<bar>of_int (rne y) - y\<bar> \<le> 1 / 2"
proof -
  have "of_int \<lfloor>y\<rfloor> \<le> y" "y < of_int \<lfloor>y\<rfloor> + 1" by linarith+
  then show ?thesis by (auto simp: rne_def Let_def)
qed

lemma rne_of_int: "rne (of_int k) = k"
  by (simp add: rne_def Let_def)

lemma floor_log2: "0 < a \<Longrightarrow> pow2 \<lfloor>log 2 a\<rfloor> \<le> a"
proof -
  assume a: "0 < a"
  have "2 powr (of_int \<lfloor>log 2 a\<rfloor>) \<le> 2 powr (log 2 a)"
    by (rule powr_mono) simp_all
  also have "\<dots> = a" using a by simp
  finally show ?thesis by (simp add: pow2_powr)
qed

lemma floor_log2_eq:
  "pow2 e \<le> a \<Longrightarrow> a < pow2 (e + 1) \<Longrightarrow> \<lfloor>log 2 a\<rfloor> = e"
proof -
  assume l: "pow2 e \<le> a" and u: "a < pow2 (e + 1)"
  have a: "0 < a" using l pow2_pos [of e] by linarith
  have "of_int e \<le> log 2 a"
    using l a by (simp add: pow2_powr le_log_iff)
  moreover have "log 2 a < of_int (e + 1)"
    using u a by (simp add: pow2_powr log_less_iff)
  ultimately show ?thesis by linarith
qed

lemma fl32_eval:
  "pow2 e \<le> \<bar>x\<bar> \<Longrightarrow> \<bar>x\<bar> < pow2 (e + 1) \<Longrightarrow> - 126 \<le> e \<Longrightarrow>
     fl32 x = of_int (rne (x / pow2 (e - 23))) * pow2 (e - 23)"
proof -
  assume l: "pow2 e \<le> \<bar>x\<bar>" and u: "\<bar>x\<bar> < pow2 (e + 1)" and m: "- 126 \<le> e"
  have "x \<noteq> 0" using l pow2_pos [of e] by auto
  moreover have "expo32 x = e"
    using floor_log2_eq [OF l u] m by (simp add: expo32_def)
  ultimately show ?thesis by (simp add: fl32_def)
qed

lemma fl32_error_normal:
  assumes "pow2 (- 126) \<le> \<bar>x\<bar>"
  shows "\<bar>fl32 x - x\<bar> \<le> \<bar>x\<bar> / 2 ^ 24"
proof -
  have x: "x \<noteq> 0" "0 < \<bar>x\<bar>" using assms pow2_pos [of "- 126"] by auto
  define e where "e = \<lfloor>log 2 \<bar>x\<bar>\<rfloor>"
  have "pow2 (- 126) < pow2 (e + 1)"
  proof -
    have "log 2 \<bar>x\<bar> < of_int (e + 1)" unfolding e_def by linarith
    then have "\<bar>x\<bar> < 2 powr (of_int (e + 1))"
      using x(2) by (simp add: log_less_iff)
    then have "\<bar>x\<bar> < pow2 (e + 1)" by (simp add: pow2_powr)
    with assms show ?thesis by linarith
  qed
  then have "- 126 < e + 1" by (simp only: pow2_less_iff)
  then have ex: "expo32 x = e" by (simp add: expo32_def e_def)
  define p where "p = pow2 (e - 23)"
  have p: "0 < p" by (simp add: p_def pow2_pos)
  have f: "fl32 x = of_int (rne (x / p)) * p"
    using x(1) by (simp add: fl32_def ex p_def)
  have "\<bar>fl32 x - x\<bar> = \<bar>of_int (rne (x / p)) - x / p\<bar> * p"
    using p by (simp only: f scaled_error)
  also have "\<dots> \<le> 1 / 2 * p"
    using p rne_error [of "x / p"] by (intro mult_right_mono) auto
  also have "1 / 2 * p = pow2 e / 2 ^ 24"
  proof -
    have "pow2 e = pow2 (e - 23) * pow2 23" using pow2_add [of "e - 23" 23] by simp
    then show ?thesis by (simp add: p_def pow2_def)
  qed
  also have "\<dots> \<le> \<bar>x\<bar> / 2 ^ 24"
    using floor_log2 [OF x(2)] by (simp add: e_def divide_right_mono)
  finally show ?thesis .
qed

lemma fl32_error:
  "\<bar>fl32 x - x\<bar> \<le> \<bar>x\<bar> / 2 ^ 24 + 1 / 2 ^ 150"
proof (cases "pow2 (- 126) \<le> \<bar>x\<bar>")
  case True
  from fl32_error_normal [OF this] show ?thesis
    by (smt (verit) divide_nonneg_pos zero_less_power zero_less_numeral zero_le_one)
next
  case False
  show ?thesis
  proof (cases "x = 0")
    case True
    then show ?thesis by (simp add: fl32_def)
  next
    case x: False
    then have xp: "0 < \<bar>x\<bar>" by simp
    have "\<lfloor>log 2 \<bar>x\<bar>\<rfloor> < - 126"
    proof (rule ccontr)
      assume "\<not> \<lfloor>log 2 \<bar>x\<bar>\<rfloor> < - 126"
      then have "- 126 \<le> \<lfloor>log 2 \<bar>x\<bar>\<rfloor>" by simp
      then have "pow2 (- 126) \<le> pow2 \<lfloor>log 2 \<bar>x\<bar>\<rfloor>" by (simp only: pow2_le_iff)
      with floor_log2 [OF xp] False show False by linarith
    qed
    then have ex: "expo32 x = - 126" by (simp add: expo32_def)
    define p where "p = pow2 (- 149)"
    have p: "0 < p" by (simp add: p_def pow2_pos)
    have f: "fl32 x = of_int (rne (x / p)) * p"
      using x by (simp add: fl32_def ex p_def)
    have "\<bar>fl32 x - x\<bar> = \<bar>of_int (rne (x / p)) - x / p\<bar> * p"
      using p by (simp only: f scaled_error)
    also have "\<dots> \<le> 1 / 2 * p"
      using p rne_error [of "x / p"] by (intro mult_right_mono) auto
    also have "1 / 2 * p = 1 / 2 ^ 150"
      by (simp add: p_def pow2_def)
    finally have "\<bar>fl32 x - x\<bar> \<le> 1 / 2 ^ 150" .
    moreover have "0 \<le> \<bar>x\<bar> / 2 ^ 24" by simp
    ultimately show ?thesis by linarith
  qed
qed

lemma eps32_val: "eps32 = 14073749 / 2 ^ 47"
  unfolding eps32_def eps_def
  using fl32_eval [of "- 24" "1 / 10000000"]
  by (simp add: pow2_def rne_def Let_def)

lemma fl32_0: "fl32 0 = 0" by (simp add: fl32_def)

lemma fl32_1: "fl32 1 = 1"
  using fl32_eval [of 0 1] by (simp add: pow2_def rne_def Let_def)

lemma sum_1_0: "pairwise_sum [1, 0] = 1"
  by (simp add: pairwise_sum.simps seq_sum_def add32_def fl32_1)

lemma d_1_0: "add32 1 eps32 = 8388609 / 8388608"
  unfolding add32_def eps32_val
  using fl32_eval [of 0 "1 + 14073749 / 2 ^ 47"]
  by (simp add: pow2_def rne_def Let_def)

lemma q_1_0: "div32 1 (8388609 / 8388608) = 8388607 / 8388608"
  unfolding div32_def
  using fl32_eval [of "- 1" "1 / (8388609 / 8388608)"]
  by (simp add: pow2_def rne_def Let_def)

lemma l1_row_1_0: "l1_row [1, 0] = [8388607 / 8388608, 0]"
proof -
  have "div32 0 d = 0" for d by (simp add: div32_def fl32_0)
  then show ?thesis by (simp add: l1_row_def sum_1_0 d_1_0 q_1_0)
qed

lemma div32_sum_error:
  "(\<forall>x \<in> set row. 0 \<le> x) \<Longrightarrow> 0 < d \<Longrightarrow>
     \<bar>sum_list (map (\<lambda>x. div32 x d) row) - sum_list row / d\<bar>
       \<le> (sum_list row / d) / 2 ^ 24 + real (length row) / 2 ^ 150"
proof (induction row)
  case Nil
  then show ?case by simp
next
  case (Cons x row)
  have q: "0 \<le> x / d" using Cons.prems by simp
  have h: "\<bar>div32 x d - x / d\<bar> \<le> (x / d) / 2 ^ 24 + 1 / 2 ^ 150"
    using fl32_error [of "x / d"] q by (simp add: div32_def)
  have t: "\<bar>sum_list (map (\<lambda>x. div32 x d) row) - sum_list row / d\<bar>
       \<le> (sum_list row / d) / 2 ^ 24 + real (length row) / 2 ^ 150"
    using Cons by simp
  have "\<bar>sum_list (map (\<lambda>x. div32 x d) (x # row)) - sum_list (x # row) / d\<bar>
      = \<bar>(div32 x d - x / d) + (sum_list (map (\<lambda>x. div32 x d) row) - sum_list row / d)\<bar>"
    by (simp add: add_divide_distrib)
  also have "\<dots> \<le> \<bar>div32 x d - x / d\<bar> + \<bar>sum_list (map (\<lambda>x. div32 x d) row) - sum_list row / d\<bar>"
    by (rule abs_triangle_ineq)
  also have "\<dots> \<le> ((x / d) / 2 ^ 24 + 1 / 2 ^ 150)
        + ((sum_list row / d) / 2 ^ 24 + real (length row) / 2 ^ 150)"
    using h t by linarith
  also have "\<dots> = (sum_list (x # row) / d) / 2 ^ 24 + real (length (x # row)) / 2 ^ 150"
    by (simp add: add_divide_distrib)
  finally show ?case .
qed

lemma ratio_bound:
  fixes \<rho> \<delta> u e :: real
  assumes u: "u = 1 / 2 ^ 24" and e: "0 \<le> e" "e \<le> 27 / 16 * u"
    and d: "0 \<le> \<delta>" "\<delta> \<le> 1 / 8"
    and lo: "1 \<le> \<rho> * ((1 + \<delta> + e) * (1 + u))"
    and hi: "\<rho> * ((1 - \<delta>) * (1 - u)) \<le> 1"
    and pos: "0 < \<rho>"
  shows "u * \<rho> + \<bar>\<rho> - 1\<bar> \<le> 4 * u + 2 * \<delta>"
proof (cases "1 \<le> \<rho>")
  case True
  have up: "0 < u" "u \<le> 1 / 16" "u \<le> 1 / 1024" by (simp_all add: u)
  define a where "a = (1 - \<delta>) * (1 - u)"
  have a34: "3 / 4 \<le> a"
  proof -
    have "7 / 8 * (15 / 16) \<le> (1 - \<delta>) * (1 - u)"
      using d up by (intro mult_mono) auto
    then show ?thesis by (simp add: a_def)
  qed
  have a1: "a \<le> 1"
  proof -
    have "(1 - \<delta>) * (1 - u) \<le> 1 * 1" using d up by (intro mult_mono) auto
    then show ?thesis by (simp add: a_def)
  qed
  have ra: "\<rho> * a \<le> 1" using hi by (simp add: a_def)
  have apos: "0 < a" using a34 by linarith
  have s1: "\<rho> \<le> 1 / a" using ra apos by (simp add: pos_le_divide_eq)
  have s2: "1 / a \<le> 1 + (4 / 3) * (1 - a)"
  proof -
    have "(1 + (4 / 3) * (1 - a)) * a - 1 = (1 - a) * ((4 / 3) * a - 1)"
      by (simp add: algebra_simps)
    moreover have "0 \<le> (1 - a) * ((4 / 3) * a - 1)"
      using a34 a1 by (intro mult_nonneg_nonneg) auto
    ultimately have "1 \<le> (1 + (4 / 3) * (1 - a)) * a" by linarith
    then show ?thesis using apos by (simp add: pos_divide_le_eq)
  qed
  have s3: "1 - a \<le> \<delta> + u"
  proof -
    have "1 - a = \<delta> + u - \<delta> * u" by (simp add: a_def algebra_simps)
    moreover have "0 \<le> \<delta> * u" using d up by simp
    ultimately show ?thesis by linarith
  qed
  have "\<rho> \<le> 1 + (4 / 3) * (1 - a)" using s1 s2 by (rule order_trans)
  also have "\<dots> \<le> 1 + (4 / 3) * (\<delta> + u)" using s3 by simp
  finally have "\<rho> \<le> 1 + (4 / 3) * (\<delta> + u)" .
  then have r: "\<rho> \<le> 1 + 4 / 3 * \<delta> + 4 / 3 * u" by (simp add: distrib_left)
  have r2: "\<rho> \<le> 2" using r d up by argo
  have "u * \<rho> \<le> u * 2"
    using r2 up by (intro mult_left_mono) auto
  moreover have "\<bar>\<rho> - 1\<bar> = \<rho> - 1" using True by simp
  ultimately show ?thesis using r d up by argo
next
  case False
  have up: "0 < u" "u \<le> 1 / 16" "u \<le> 1 / 1024" by (simp_all add: u)
  define w where "w = (1 + \<delta> + e) * (1 + u)"
  have w1: "1 \<le> w"
  proof -
    have "1 * 1 \<le> (1 + \<delta> + e) * (1 + u)" using d e up by (intro mult_mono) auto
    then show ?thesis by (simp add: w_def)
  qed
  have rw: "1 \<le> \<rho> * w" using lo by (simp add: w_def)
  have "1 - \<rho> \<le> \<rho> * w - \<rho>" using rw by linarith
  also have "\<dots> = \<rho> * (w - 1)" by (simp add: algebra_simps)
  also have "\<dots> \<le> 1 * (w - 1)" using False w1 pos by (intro mult_right_mono) auto
  finally have l: "1 - \<rho> \<le> w - 1" by simp
  have "w - 1 = \<delta> + e + u + u * \<delta> + u * e" by (simp add: w_def algebra_simps)
  moreover have "u * \<delta> \<le> 1 / 16 * \<delta>" using up d by (intro mult_right_mono) auto
  moreover have "u * e \<le> u * (1 / 16)"
  proof -
    have "e \<le> 1 / 16" using e up by argo
    then show ?thesis using up by (intro mult_left_mono) auto
  qed
  ultimately have "w - 1 \<le> \<delta> + 27 / 16 * u + u + 1 / 16 * \<delta> + 1 / 16 * u"
    using e by linarith
  moreover have "u * \<rho> \<le> u * 1" using False up by (intro mult_left_mono) auto
  moreover have "\<bar>\<rho> - 1\<bar> = 1 - \<rho>" using False by simp
  ultimately show ?thesis using l d up by argo
qed

lemma fl32_3: "fl32 3 = 3"
  using fl32_eval [of 1 3] by (simp add: pow2_def rne_def Let_def)

lemma fl32_8: "fl32 8 = 8"
  using fl32_eval [of 3 8] by (simp add: pow2_def rne_def Let_def)

lemma sum_3_0_5: "pairwise_sum [3, 0, 5] = 8"
  by (simp add: pairwise_sum.simps seq_sum_def add32_def fl32_3 fl32_8)

lemma d_3_0_5: "add32 8 eps32 = 8"
  unfolding add32_def eps32_val
  using fl32_eval [of 3 "8 + 14073749 / 2 ^ 47"]
  by (simp add: pow2_def rne_def Let_def)

lemma q_3_0_5: "div32 3 8 = 3 / 8" "div32 0 8 = 0" "div32 5 8 = 5 / 8"
  using fl32_eval [of "- 2" "3 / 8"] fl32_eval [of "- 1" "5 / 8"]
  by (simp_all add: div32_def fl32_0 pow2_def rne_def Let_def)

lemma l1_row_3_0_5: "l1_row [3, 0, 5] = [3 / 8, 0, 5 / 8]"
  by (simp add: l1_row_def sum_3_0_5 d_3_0_5 q_3_0_5)

lemma sum_small: "pairwise_sum [1 / 8388608, 0] = 1 / 8388608"
proof -
  have f: "fl32 (1 / 8388608) = 1 / 8388608"
    using fl32_eval [of "- 23" "1 / 8388608"] by (simp add: pow2_def rne_def Let_def)
  show ?thesis by (simp add: pairwise_sum.simps seq_sum_def add32_def f)
qed

lemma d_small: "add32 (1 / 8388608) eps32 = 7712741 / 35184372088832"
  unfolding add32_def eps32_val
  using fl32_eval [of "- 23" "1 / 8388608 + 14073749 / 2 ^ 47"]
  by (simp add: pow2_def rne_def Let_def)

lemma q_small: "div32 (1 / 8388608) (7712741 / 35184372088832) = 9123701 / 16777216"
  unfolding div32_def
  using fl32_eval [of "- 1" "(1 / 8388608) / (7712741 / 35184372088832)"]
  by (simp add: pow2_def rne_def Let_def)

lemma l1_row_small: "l1_row [1 / 8388608, 0] = [9123701 / 16777216, 0]"
proof -
  have "div32 0 d = 0" for d by (simp add: div32_def fl32_0)
  then show ?thesis by (simp add: l1_row_def sum_small d_small q_small)
qed

lemma detect_object_skip:
  "\<not> (has_rows des \<and> has_rows scene_des) \<Longrightarrow>
     detect_object E self name ((obj_img, kp, des) # rest) (si, skp, scene_des) co
       = detect_object E self name rest (si, skp, scene_des) co"
  by auto

lemma detect_object_no_scene:
  "\<not> has_rows scene_des \<Longrightarrow>
     detect_object E self name feats (si, skp, scene_des) co = (self, Inr None)"
proof (induction feats)
  case Nil
  then show ?case by simp
next
  case (Cons f feats)
  obtain obj_img kp des where f: "f = (obj_img, kp, des)" by (cases f) auto
  from Cons show ?case unfolding f by simp
qed

lemma detect_object_below:
  "has_rows des \<Longrightarrow> has_rows scene_des \<Longrightarrow> matcher self = Some mt \<Longrightarrow>
   int (length (good_matches (knnMatch E mt (the des) (the scene_des)))) \<le> min_points self \<Longrightarrow>
     detect_object E self name ((obj_img, kp, des) # rest) (si, skp, scene_des) co
       = detect_object E self name rest (si, skp, scene_des) co"
  by (simp add: Let_def)

lemma detect_object_pass:
  "has_rows des \<Longrightarrow> has_rows scene_des \<Longrightarrow> matcher self = Some mt \<Longrightarrow>
   int (length (good_matches (knnMatch E mt (the des) (the scene_des)))) > min_points self \<Longrightarrow>
   object_counters self name = Some c \<Longrightarrow>
     detect_object E self name ((obj_img, kp, des) # rest) (si, skp, scene_des) co
       = (self\<lparr>object_counters := (object_counters self)(name \<mapsto> c + 1)\<rparr>,
          localize E (self\<lparr>object_counters := (object_counters self)(name \<mapsto> c + 1)\<rparr>)
            obj_img kp skp (good_matches (knnMatch E mt (the des) (the scene_des))) co)"
  by (simp add: Let_def increment_counter_def)

lemma too_small_counters [simp]:
  "too_small (self\<lparr>object_counters := cs\<rparr>) w h = too_small self w h"
  by (simp add: too_small_def)

lemma localize_counters [simp]:
  "localize E (self\<lparr>object_counters := cs\<rparr>) obj_img kp skp good co
     = localize E self obj_img kp skp good co"
  by (simp add: localize_def Let_def split: sum.splits prod.splits)

lemma localize_some:
  "points_at kp (map queryIdx good) = Inr src \<Longrightarrow>
   points_at skp (map trainIdx good) = Inr dst \<Longrightarrow>
   findHomography E src dst = Some M \<Longrightarrow>
   template_size obj_img co = (w0, h0) \<Longrightarrow>
   poly = map (\<lambda>(x, y). (np_int32 E x, np_int32 E y))
            (map (transform_point E M) [(0, 0), (0, h0 - 1), (w0 - 1, h0 - 1), (w0 - 1, 0)]) \<Longrightarrow>
   extract_rectangle poly = Inr (x, y, w, h) \<Longrightarrow>
     localize E self obj_img kp skp good co
       = (if too_small self w h then Inr None else Inr (Some (poly, (x, y, w, h))))"
  by (simp add: localize_def perspectiveTransform_def)

lemma localize_no_homography:
  "points_at kp (map queryIdx good) = Inr src \<Longrightarrow>
   points_at skp (map trainIdx good) = Inr dst \<Longrightarrow>
   findHomography E src dst = None \<Longrightarrow>
     localize E self obj_img kp skp good co = Inl CvError"
  by (simp add: localize_def perspectiveTransform_def split: prod.splits)

lemma detect_object_effect:
  "detect_object E self name feats scene co = (self', r) \<Longrightarrow>
     (self' = self \<and> (\<forall>x. r \<noteq> Inr (Some x))) \<or> bumped self name self'"
proof (induction feats)
  case Nil
  then show ?case by auto
next
  case (Cons f feats)
  obtain obj_img kp des where f: "f = (obj_img, kp, des)" by (cases f) auto
  obtain scene_img scene_kp scene_des where s: "scene = (scene_img, scene_kp, scene_des)"
    by (cases scene) auto
  from Cons show ?case
    unfolding f s bumped_def
    by (auto simp: Let_def increment_counter_def split: if_splits option.splits sum.splits)
qed

lemma detect_object_passes:
  "object_counters self name = Some c \<Longrightarrow>
     fst (detect_object E self name feats scene co)
       = (if \<exists>f \<in> set feats. passes_threshold E self f scene
          then self\<lparr>object_counters := (object_counters self)(name \<mapsto> c + 1)\<rparr> else self)"
proof (induction feats)
  case Nil
  then show ?case by simp
next
  case (Cons f feats)
  obtain obj_img kp des where f: "f = (obj_img, kp, des)" by (cases f) auto
  obtain scene_img scene_kp scene_des where s: "scene = (scene_img, scene_kp, scene_des)"
    by (cases scene) auto
  from Cons show ?case
    unfolding f s
    by (auto simp: Let_def increment_counter_def passes_threshold_def split: option.splits)
qed

lemma detect_frames_count:
  "detect_frames E self name feats scenes = (self', rs) \<Longrightarrow>
   object_counters self name = Some c \<Longrightarrow>
   \<forall>r \<in> set rs. \<exists>loc. r = Inr (Some loc) \<Longrightarrow>
     object_counters self' name = Some (c + int (length scenes))"
proof (induction scenes arbitrary: self self' c rs)
  case Nil
  then show ?case by simp
next
  case (Cons scene scenes)
  obtain s1 r1 where d: "detect_object E self name feats scene None = (s1, r1)"
    by (cases "detect_object E self name feats scene None") auto
  obtain s2 rs2 where e: "detect_frames E s1 name feats scenes = (s2, rs2)"
    by (cases "detect_frames E s1 name feats scenes") auto
  from Cons.prems(1) d e have eq: "self' = s2" "rs = r1 # rs2" by auto
  from Cons.prems(3) eq obtain loc where r1: "r1 = Inr (Some loc)" by auto
  from detect_object_effect [OF d] r1 have "bumped self name s1" by auto
  with Cons.prems(2) have c1: "object_counters s1 name = Some (c + 1)"
    by (auto simp: bumped_def)
  from Cons.prems(3) eq have all: "\<forall>r \<in> set rs2. \<exists>loc. r = Inr (Some loc)" by auto
  from Cons.IH [OF e c1 all] eq show ?case by simp
qed

lemma points_at_in_range:
  "\<forall>i \<in> set idxs. 0 \<le> i \<and> i < int (length kp) \<Longrightarrow>
     points_at kp idxs = Inr (map (\<lambda>i. pt (kp ! nat i)) idxs)"
  by (induction idxs) (simp_all add: py_index_def)

lemma good_demo_matches:
  "good_matches demo_matches =
     map (\<lambda>i. \<lparr>queryIdx = int i, trainIdx = int i, distance = 0\<rparr>) [0..<250]"
  by (simp add: good_matches_filter demo_matches_def filter_map o_def)

lemma good_sparse_matches:
  "good_matches (take 200 demo_matches) =
     map (\<lambda>i. \<lparr>queryIdx = int i, trainIdx = int i, distance = 0\<rparr>) [0..<200]"
  by (simp add: good_matches_filter demo_matches_def filter_map o_def take_map)

lemma length_demo_kps: "length demo_kps = 250"
  by (simp add: demo_kps_def)

lemma has_rows_demo: "has_rows (Some demo_des)" "has_rows (Some (snd (rootsift demo_kps demo_des)))"
  by (simp_all add: has_rows_def demo_des_def rootsift_def l1_normalize_def)

lemma points_demo:
  "points_at demo_kps (map queryIdx (good_matches demo_matches)) = Inr (map pt demo_kps)"
  "points_at demo_kps (map trainIdx (good_matches demo_matches)) = Inr (map pt demo_kps)"
proof -
  have "points_at demo_kps (map int [0..<250]) = Inr (map (\<lambda>i. pt (demo_kps ! nat i)) (map int [0..<250]))"
    by (rule points_at_in_range) (auto simp: length_demo_kps)
  also have "map (\<lambda>i. pt (demo_kps ! nat i)) (map int [0..<250]) = map pt demo_kps"
    by (simp add: demo_kps_def o_def)
  finally have *: "points_at demo_kps (map int [0..<250]) = Inr (map pt demo_kps)" .
  show "points_at demo_kps (map queryIdx (good_matches demo_matches)) = Inr (map pt demo_kps)"
    using * by (simp add: good_demo_matches o_def)
  show "points_at demo_kps (map trainIdx (good_matches demo_matches)) = Inr (map pt demo_kps)"
    using * by (simp add: good_demo_matches o_def)
qed

lemma trunc32_vals:
  "trunc32 0 = 0" "trunc32 479 = 479" "trunc32 639 = 639"
  "trunc32 (479 / 100) = 4" "trunc32 (639 / 100) = 6"
  by (simp_all add: trunc32_def)

lemma extract_mug: "extract_rectangle mug_polygon = Inr (0, 0, 639, 479)"
  by (simp add: mug_polygon_def extract_rectangle_def smin_def smax_def)

lemma extract_shrunk:
  "extract_rectangle [(0, 0), (0, 4), (6, 4), (6, 0)] = Inr (0, 0, 6, 4)"
  by (simp add: extract_rectangle_def smin_def smax_def)

lemma template_mug: "template_size mug_img None = (640, 480)"
  by (simp add: template_size_def mug_img_def)

lemma mug_fields:
  "matcher mug_detector = Some BFMatcher" "min_points mug_detector = 200"
  "object_counters mug_detector ''mug'' = Some 0"
  "min_object_width mug_detector = 10" "min_object_height mug_detector = 10"
  "min_object_area mug_detector = 100" "detector mug_detector = Some SIFT_create"
  "detector_type mug_detector = ''RootSIFT''"
  "object_features mug_detector = [(''mug'', mug_features)]"
  by (simp_all add: mug_detector_def)

lemma env_fields:
  "knnMatch demo_env mt a b = demo_matches"
  "knnMatch shrink_env mt a b = demo_matches"
  "knnMatch degenerate_env mt a b = demo_matches"
  "knnMatch sparse_env mt a b = take 200 demo_matches"
  "findHomography demo_env src dst = Some [[1, 0, 0], [0, 1, 0], [0, 0, 1]]"
  "findHomography shrink_env src dst = Some [[1 / 100, 0, 0], [0, 1 / 100, 0], [0, 0, 1]]"
  "findHomography degenerate_env src dst = None"
  "transform_point demo_env = project" "transform_point shrink_env = project"
  "np_int32 demo_env = trunc32" "np_int32 shrink_env = trunc32"
  "detectAndCompute demo_env dt img = (demo_kps, Some demo_des)"
  "detectAndCompute degenerate_env dt img = (demo_kps, Some demo_des)"
  by (simp_all add: demo_env_def shrink_env_def degenerate_env_def sparse_env_def)

lemma poly_demo:
  "map (\<lambda>(x, y). (np_int32 demo_env x, np_int32 demo_env y))
     (map (transform_point demo_env [[1, 0, 0], [0, 1, 0], [0, 0, 1]])
        [(0, 0), (0, 480 - 1), (640 - 1, 480 - 1), (640 - 1, 0)]) = mug_polygon"
  by (simp add: env_fields project_def trunc32_vals mug_polygon_def)

lemma poly_shrink:
  "map (\<lambda>(x, y). (np_int32 shrink_env x, np_int32 shrink_env y))
     (map (transform_point shrink_env [[1 / 100, 0, 0], [0, 1 / 100, 0], [0, 0, 1]])
        [(0, 0), (0, 480 - 1), (640 - 1, 480 - 1), (640 - 1, 0)]) = [(0, 0), (0, 4), (6, 4), (6, 0)]"
  by (simp add: env_fields project_def trunc32_vals)

lemma has_rows_iff: "has_rows d \<longleftrightarrow> d \<noteq> None \<and> d \<noteq> Some []"
  by (cases d) (auto simp: has_rows_def)

lemma detect_mug:
  "detect_object demo_env mug_detector ''mug'' mug_features mug_scene None
     = (mug_detector\<lparr>object_counters := [''mug'' \<mapsto> 1]\<rparr>, Inr (Some (mug_polygon, (0, 0, 639, 479))))"
proof -
  have l: "localize demo_env self mug_img demo_kps demo_kps (good_matches demo_matches) None
      = (if too_small self 639 479 then Inr None else Inr (Some (mug_polygon, (0, 0, 639, 479))))" for self
    by (rule localize_some [OF points_demo(1) points_demo(2) env_fields(5) template_mug
          poly_demo [symmetric] extract_mug])
  have t: "\<not> too_small mug_detector 639 479"
    by (simp add: too_small_def mug_fields)
  have p: "detect_object demo_env mug_detector ''mug'' ((mug_img, demo_kps, Some (snd (rootsift demo_kps demo_des))) # [])
        (mug_img, demo_kps, Some (snd (rootsift demo_kps demo_des))) None
       = (mug_detector\<lparr>object_counters := (object_counters mug_detector)(''mug'' \<mapsto> 0 + 1)\<rparr>,
          localize demo_env (mug_detector\<lparr>object_counters := (object_counters mug_detector)(''mug'' \<mapsto> 0 + 1)\<rparr>)
            mug_img demo_kps demo_kps
            (good_matches (knnMatch demo_env BFMatcher (the (Some (snd (rootsift demo_kps demo_des))))
               (the (Some (snd (rootsift demo_kps demo_des)))))) None)"
    by (rule detect_object_pass) (simp_all add: has_rows_demo mug_fields env_fields good_demo_matches)
  have c: "(object_counters mug_detector)(''mug'' \<mapsto> 1) = [''mug'' \<mapsto> 1]"
    by (simp add: mug_detector_def)
  show ?thesis
    unfolding mug_features_def mug_scene_def p
    by (simp add: env_fields l t c)
qed

lemma load_all_fields:
  "load_all E self objs = Inr self' \<Longrightarrow>
     \<exists>fs. self' = self\<lparr>object_features := fs\<rparr>"
proof (induction objs arbitrary: self)
  case Nil
  then show ?case by (auto intro: exI [of _ "object_features self"])
next
  case (Cons obj objs)
  from Cons.prems obtain fs0 where
    "load_all E (self\<lparr>object_features := AList.update obj fs0 (object_features self)\<rparr>) objs = Inr self'"
    by (auto split: sum.splits)
  from Cons.IH [OF this] obtain fs where
    "self' = self\<lparr>object_features := AList.update obj fs0 (object_features self)\<rparr>\<lparr>object_features := fs\<rparr>"
    by blast
  then have "self' = self\<lparr>object_features := fs\<rparr>" by simp
  then show ?case by blast
qed

lemma init_fields:
  assumes "init E dbpath dtype mtype = Inr self"
  shows "\<exists>ds. listdir E dbpath = Inr ds \<and> objects self = object_classes ds
           \<and> object_counters self = zero_counters (object_classes ds)"
    and "min_points self = 200" and "min_object_width self = 10"
    and "min_object_height self = 10" and "min_object_area self = 100"
    and "current_frame self = 0"
proof -
  from assms obtain ds s0 where l: "listdir E dbpath = Inr ds"
    and s0: "load_all E s0 (object_classes ds) = Inr self"
    and f: "objects s0 = object_classes ds" "object_counters s0 = zero_counters (object_classes ds)"
      "min_points s0 = 200" "min_object_width s0 = 10" "min_object_height s0 = 10"
      "min_object_area s0 = 100" "current_frame s0 = 0"
    by (auto simp: init_def split: sum.splits)
  from load_all_fields [OF s0] obtain fs where e: "self = s0\<lparr>object_features := fs\<rparr>" by blast
  show "\<exists>ds. listdir E dbpath = Inr ds \<and> objects self = object_classes ds
           \<and> object_counters self = zero_counters (object_classes ds)"
    using l f e by auto
  show "min_points self = 200" "min_object_width self = 10"
    "min_object_height self = 10" "min_object_area self = 100" "current_frame self = 0"
    using f e by auto
qed

lemma apply_rootsift_demo:
  "apply_rootsift ''RootSIFT'' (demo_kps, Some demo_des)
     = Inr (demo_kps, Some (snd (rootsift demo_kps demo_des)))"
  using length_demo_kps by (auto simp: apply_rootsift_def rootsift_def)

lemma load_mug_image:
  assumes "detector self = Some SIFT_create" "detector_type self = ''RootSIFT''"
    and "p \<in> set [''db/mug/mug1.png'', ''db2/mug/mug1.png'', ''data/mug/mug1.png'']"
  shows "load_image demo_env self p = Inr (mug_img, demo_kps, Some (snd (rootsift demo_kps demo_des)))"
proof -
  have r: "imread demo_env p = Some mug_img"
    using assms(3) by (auto simp: demo_env_def demo_files_def)
  have s: "scale_down demo_env mug_img = mug_img"
    by (simp add: scale_down_def mug_img_def)
  show ?thesis using assms(1,2) by (simp add: load_image_def r s env_fields apply_rootsift_demo)
qed

lemma listdir_demo:
  "listdir demo_env ''db/'' = Inr [''mug'', ''IGNORE'']"
  "listdir demo_env ''db/mug/'' = Inr [''mug1.png'']"
  "listdir demo_env ''db2/'' = Inr [''mug'', ''m'']"
  "listdir demo_env ''db2/mug/'' = Inr [''mug1.png'']"
  "listdir demo_env ''db2/m/'' = Inr []"
  "listdir demo_env ''data/'' = Inr [''mug'', ''notes.txt'']"
  "listdir demo_env ''data/mug/'' = Inr [''mug1.png'']"
  "listdir demo_env ''data/notes.txt/'' = Inl OSError"
  "listdir demo_env ''top'' = Inr [''x'']"
  "listdir demo_env ''topx/'' = Inr []"
  by (simp_all add: demo_env_def demo_dirs_def)

lemma load_mug_features:
  assumes "detector self = Some SIFT_create" "detector_type self = ''RootSIFT''"
    and "database_path self \<in> set [''db/'', ''db2/'', ''data/'']"
  shows "load_features demo_env self ''mug'' = Inr mug_features"
proof -
  have j: "isfile demo_env (d @ ''mug1.png'')" "join_path d ''mug1.png'' = d @ ''mug1.png''"
    "d @ ''mug1.png'' \<in> set [''db/mug/mug1.png'', ''db2/mug/mug1.png'', ''data/mug/mug1.png'']"
    "listdir demo_env d = Inr [''mug1.png'']"
    if "d = database_path self @ ''mug/''" for d
    using that assms(3) by (auto simp: demo_env_def demo_files_def demo_dirs_def join_path_def)
  show ?thesis
    using assms(1,2) j [OF refl]
    by (simp add: load_features_def Let_def load_mug_image mug_features_def)
qed

lemma init_mug: "init demo_env ''db/'' ''RootSIFT'' ''BF'' = Inr mug_detector"
proof -
  have o: "object_classes [''mug'', ''IGNORE''] = [''mug'']"
    by (simp add: object_classes_def basename_def)
  show ?thesis
    by (simp add: init_def listdir_demo o load_mug_features zero_counters_def mug_detector_def)
qed

lemma length_good_demo: "length (good_matches demo_matches) = 250"
  by (simp add: good_demo_matches)

lemma length_good_sparse: "length (good_matches (take 200 demo_matches)) = 200"
  by (simp add: good_sparse_matches)

lemma detect_mug_features:
  assumes "\<And>mt a b. knnMatch E mt a b = demo_matches"
    and "matcher self = Some mt" and "min_points self = 200"
    and "object_counters self ''mug'' = Some c"
  shows "detect_object E self ''mug'' (mug_features @ rest) (fr, demo_kps, Some (snd (rootsift demo_kps demo_des))) None
     = (self\<lparr>object_counters := (object_counters self)(''mug'' \<mapsto> c + 1)\<rparr>,
        localize E self mug_img demo_kps demo_kps (good_matches demo_matches) None)"
proof -
  have "detect_object E self ''mug'' ((mug_img, demo_kps, Some (snd (rootsift demo_kps demo_des))) # rest)
        (fr, demo_kps, Some (snd (rootsift demo_kps demo_des))) None
       = (self\<lparr>object_counters := (object_counters self)(''mug'' \<mapsto> c + 1)\<rparr>,
          localize E (self\<lparr>object_counters := (object_counters self)(''mug'' \<mapsto> c + 1)\<rparr>)
            mug_img demo_kps demo_kps
            (good_matches (knnMatch E mt (the (Some (snd (rootsift demo_kps demo_des))))
               (the (Some (snd (rootsift demo_kps demo_des)))))) None)"
    by (rule detect_object_pass) (simp_all add: has_rows_demo assms length_good_demo)
  then show ?thesis
    by (simp add: mug_features_def assms(1) del: detect_object.simps)
qed

lemma localize_demo:
  assumes "min_object_width self = 10" "min_object_height self = 10" "min_object_area self = 100"
  shows "localize demo_env self mug_img demo_kps demo_kps (good_matches demo_matches) None
      = Inr (Some (mug_polygon, (0, 0, 639, 479)))"
proof -
  have "localize demo_env self mug_img demo_kps demo_kps (good_matches demo_matches) None
      = (if too_small self 639 479 then Inr None else Inr (Some (mug_polygon, (0, 0, 639, 479))))"
    by (rule localize_some [OF points_demo(1) points_demo(2) env_fields(5) template_mug
          poly_demo [symmetric] extract_mug])
  then show ?thesis by (simp add: too_small_def assms)
qed

lemma localize_shrink:
  assumes "min_object_width self = 10" "min_object_height self = 10" "min_object_area self = 100"
  shows "localize shrink_env self mug_img demo_kps demo_kps (good_matches demo_matches) None = Inr None"
proof -
  have "localize shrink_env self mug_img demo_kps demo_kps (good_matches demo_matches) None
      = (if too_small self 6 4 then Inr None else Inr (Some ([(0, 0), (0, 4), (6, 4), (6, 0)], (0, 0, 6, 4))))"
    by (rule localize_some [OF points_demo(1) points_demo(2) env_fields(6) template_mug
          poly_shrink [symmetric] extract_shrunk])
  then show ?thesis by (simp add: too_small_def assms)
qed

lemma localize_degenerate:
  "localize degenerate_env self mug_img demo_kps demo_kps (good_matches demo_matches) None = Inl CvError"
  by (rule localize_no_homography [OF points_demo(1) points_demo(2) env_fields(7)])

lemma detect_demo_step:
  assumes "matcher self = Some mt" "min_points self = 200"
    and "object_counters self ''mug'' \<noteq> None"
    and "min_object_width self = 10" "min_object_height self = 10" "min_object_area self = 100"
  shows "detect_object demo_env self ''mug'' (mug_features @ rest) (fr, demo_kps, Some (snd (rootsift demo_kps demo_des))) None
     = (self\<lparr>object_counters := (object_counters self)(''mug'' \<mapsto> the (object_counters self ''mug'') + 1)\<rparr>,
        Inr (Some (mug_polygon, (0, 0, 639, 479))))"
proof -
  from assms(3) obtain c where c: "object_counters self ''mug'' = Some c" by auto
  show ?thesis
    using detect_mug_features [of demo_env self mt c rest fr] assms c
    by (simp add: env_fields localize_demo del: detect_object.simps)
qed

lemma detect_shrink_step:
  assumes "matcher self = Some mt" "min_points self = 200"
    and "object_counters self ''mug'' \<noteq> None"
    and "min_object_width self = 10" "min_object_height self = 10" "min_object_area self = 100"
  shows "detect_object shrink_env self ''mug'' (mug_features @ rest) (fr, demo_kps, Some (snd (rootsift demo_kps demo_des))) None
     = (self\<lparr>object_counters := (object_counters self)(''mug'' \<mapsto> the (object_counters self ''mug'') + 1)\<rparr>,
        Inr None)"
proof -
  from assms(3) obtain c where c: "object_counters self ''mug'' = Some c" by auto
  show ?thesis
    using detect_mug_features [of shrink_env self mt c rest fr] assms c
    by (simp add: env_fields localize_shrink del: detect_object.simps)
qed

lemma detect_degenerate_step:
  assumes "matcher self = Some mt" "min_points self = 200"
    and "object_counters self ''mug'' \<noteq> None"
  shows "detect_object degenerate_env self ''mug'' (mug_features @ rest) (fr, demo_kps, Some (snd (rootsift demo_kps demo_des))) None
     = (self\<lparr>object_counters := (object_counters self)(''mug'' \<mapsto> the (object_counters self ''mug'') + 1)\<rparr>,
        Inl CvError)"
proof -
  from assms(3) obtain c where c: "object_counters self ''mug'' = Some c" by auto
  show ?thesis
    using detect_mug_features [of degenerate_env self mt c rest fr] assms c
    by (simp add: env_fields localize_degenerate del: detect_object.simps)
qed

lemma from_image_scene:
  assumes "\<And>dt img. detectAndCompute E dt img = (demo_kps, Some demo_des)"
    and "detector self = Some d" "detector_type self = ''RootSIFT''"
  shows "from_image E self frame
     = from_image_loop E (self\<lparr>current_frame := current_frame self + 1\<rparr>)
         (map fst (object_features self)) demo_kps (Some (snd (rootsift demo_kps demo_des)))
         frame Map.empty"
  by (simp add: from_image_def Let_def assms apply_rootsift_demo)

lemma detect_mug_counter:
  "detect_object demo_env (mug_detector\<lparr>object_counters := [''mug'' \<mapsto> k]\<rparr>) ''mug'' mug_features mug_scene None
     = (mug_detector\<lparr>object_counters := [''mug'' \<mapsto> k + 1]\<rparr>,
        Inr (Some (mug_polygon, (0, 0, 639, 479))))"
  using detect_demo_step [of "mug_detector\<lparr>object_counters := [''mug'' \<mapsto> k]\<rparr>" BFMatcher "[]" mug_img]
  by (simp add: mug_fields mug_scene_def del: detect_object.simps)

lemma from_image_loop_counters:
  "distinct keys \<Longrightarrow>
   from_image_loop E self keys scene_kp scene_des frame detected = (self', r) \<Longrightarrow>
   object_features self' = object_features self \<and>
   (\<forall>n. object_counters self' n = object_counters self n
        \<or> (n \<in> set keys \<and> (\<exists>c. object_counters self n = Some c
                                  \<and> object_counters self' n = Some (c + 1))))"
proof (induction keys arbitrary: self frame detected)
  case Nil
  then show ?case by auto
next
  case (Cons k keys)
  show ?case
  proof (cases "map_of (object_features self) k")
    case None
    with Cons.prems show ?thesis by auto
  next
    case (Some features)
    obtain s1 r1 where d: "detect_object E self k features (frame, scene_kp, scene_des) None = (s1, r1)"
      by (cases "detect_object E self k features (frame, scene_kp, scene_des) None") auto
    from detect_object_effect [OF d]
    have s1: "s1 = self \<or> bumped self k s1" by auto
    then have f1: "object_features s1 = object_features self"
      by (auto simp: bumped_def)
    have c1: "\<forall>n. object_counters s1 n = object_counters self n
        \<or> (n = k \<and> (\<exists>c. object_counters self n = Some c
                                  \<and> object_counters s1 n = Some (c + 1)))"
      using s1 by (auto simp: bumped_def split: if_splits)
    have stop: "self' = s1 \<Longrightarrow> ?thesis"
      using f1 c1 by auto
    have dk: "distinct keys" "k \<notin> set keys" using Cons.prems(1) by auto
    have cont: "from_image_loop E s1 keys scene_kp scene_des fr dt = (self', r) \<Longrightarrow> ?thesis" for fr dt
    proof -
      assume a: "from_image_loop E s1 keys scene_kp scene_des fr dt = (self', r)"
      from Cons.IH [OF dk(1) a]
      have ih: "object_features self' = object_features s1"
        "\<forall>n. object_counters self' n = object_counters s1 n
           \<or> (n \<in> set keys \<and> (\<exists>c. object_counters s1 n = Some c
                                  \<and> object_counters self' n = Some (c + 1)))"
        by auto
      show ?thesis
      proof (intro conjI allI)
        show "object_features self' = object_features self" using ih(1) f1 by simp
      next
        fix n
        show "object_counters self' n = object_counters self n
            \<or> (n \<in> set (k # keys) \<and> (\<exists>c. object_counters self n = Some c
                                  \<and> object_counters self' n = Some (c + 1)))"
          using ih(2) [rule_format, of n] c1 [rule_format, of n] dk(2) by auto
      qed
    qed
    have alt: "self' = s1 \<or> (\<exists>fr dt. from_image_loop E s1 keys scene_kp scene_des fr dt = (self', r))"
      using Cons.prems(2) Some d
      by (simp split: sum.splits option.splits prod.splits del: detect_object.simps) blast+
    then show ?thesis using stop cont by blast
  qed
qed

lemma from_image_counters:
  assumes "distinct (map fst (object_features self))"
    and "from_image E self frame = (self', r)"
  shows "object_counters self' n = object_counters self n
        \<or> (\<exists>c. object_counters self n = Some c \<and> object_counters self' n = Some (c + 1))"
proof -
  let ?s = "self\<lparr>current_frame := current_frame self + 1\<rparr>"
  have "self' = ?s \<or> (\<exists>kp des. from_image_loop E ?s (map fst (object_features self)) kp des frame Map.empty = (self', r))"
    using assms(2) by (auto simp: from_image_def Let_def split: option.splits sum.splits)
  then show ?thesis
  proof
    assume "self' = ?s"
    then show ?thesis by simp
  next
    assume "\<exists>kp des. from_image_loop E ?s (map fst (object_features self)) kp des frame Map.empty = (self', r)"
    then obtain kp des where
      l: "from_image_loop E ?s (map fst (object_features self)) kp des frame Map.empty = (self', r)"
      by blast
    from from_image_loop_counters [OF assms(1) l] show ?thesis by auto
  qed
qed

lemma load_all_keys:
  "load_all E self objs = Inr self' \<Longrightarrow>
     (distinct (map fst (object_features self)) \<longrightarrow> distinct (map fst (object_features self')))
     \<and> set (map fst (object_features self')) = set (map fst (object_features self)) \<union> set objs"
proof (induction objs arbitrary: self)
  case Nil
  then show ?case by simp
next
  case (Cons obj objs)
  from Cons.prems obtain fs0 where
    l: "load_all E (self\<lparr>object_features := AList.update obj fs0 (object_features self)\<rparr>) objs = Inr self'"
    by (auto split: sum.splits)
  from Cons.IH [OF l] show ?case
    by (auto simp: distinct_update update_keys split: if_splits)
qed

lemma init_distinct:
  assumes "init E dbpath dtype mtype = Inr self"
  shows "distinct (map fst (object_features self))"
proof -
  from assms obtain ds s0 where s0: "load_all E s0 (object_classes ds) = Inr self"
    and f: "object_features s0 = []"
    by (auto simp: init_def split: sum.splits)
  from load_all_keys [OF s0] f show ?thesis by simp
qed

lemma twice_fields:
  "object_features twice_detector = [(''mug'', mug_features @ mug_features)]"
  "detector twice_detector = Some SIFT_create" "detector_type twice_detector = ''RootSIFT''"
  "current_frame twice_detector = 0" "object_counters twice_detector ''mug'' = Some 0"
  by (simp_all add: twice_detector_def mug_detector_def)

lemma from_image_twice:
  "from_image shrink_env twice_detector mug_img
     = (twice_detector\<lparr>current_frame := 1, object_counters := [''mug'' \<mapsto> 1]\<rparr>,
        Inr (mug_img, Map.empty))"
proof -
  let ?s1 = "twice_detector\<lparr>current_frame := 1\<rparr>"
  have d: "detect_object shrink_env ?s1 ''mug'' (mug_features @ mug_features)
             (mug_img, demo_kps, Some (snd (rootsift demo_kps demo_des))) None
           = (twice_detector\<lparr>current_frame := 1, object_counters := [''mug'' \<mapsto> 1]\<rparr>, Inr None)"
    using detect_shrink_step [of ?s1 BFMatcher mug_features mug_img]
    by (simp add: twice_detector_def mug_detector_def del: detect_object.simps)
  have "from_image_loop shrink_env ?s1 [''mug''] demo_kps (Some (snd (rootsift demo_kps demo_des)))
          mug_img Map.empty
        = (twice_detector\<lparr>current_frame := 1, object_counters := [''mug'' \<mapsto> 1]\<rparr>,
           Inr (mug_img, Map.empty))"
    by (simp add: d twice_fields del: detect_object.simps)
  moreover have "detectAndCompute shrink_env dt img = (demo_kps, Some demo_des)" for dt img
    by (simp add: shrink_env_def demo_env_def)
  ultimately show ?thesis
    using from_image_scene [of shrink_env twice_detector SIFT_create mug_img]
    by (simp add: twice_fields del: from_image_loop.simps)
qed

lemma init_two: "init demo_env ''db2/'' ''RootSIFT'' ''BF'' = Inr two_detector"
proof -
  have o: "object_classes [''mug'', ''m''] = [''mug'', ''m'']"
    by (simp add: object_classes_def basename_def)
  have m: "load_features demo_env self ''m'' = Inr []" if "database_path self = ''db2/''" for self
    using that by (simp add: load_features_def Let_def listdir_demo)
  have z: "zero_counters [''mug'', ''m''] = [''mug'' \<mapsto> 0, ''m'' \<mapsto> 0]"
    by (simp add: zero_counters_def)
  show ?thesis
    by (simp add: init_def listdir_demo o load_mug_features m z two_detector_def)
qed

lemma record_mug:
  "record_detection self ''mug'' mug_polygon (0, 0, 639, 479) frame Map.empty
     = (case object_counters self ''m'' of
          None \<Rightarrow> Inl KeyError
        | Some c \<Rightarrow> Inr (frame\<lparr>drawn := drawn frame @ [Polylines mug_polygon, PutText ''m'' c (0, 479)]\<rparr>,
                        [''m'' \<mapsto> [(0, 0, 479, 639)]]))"
  by (simp add: record_detection_def py_index_def Let_def mug_polygon_def split: option.splits)

lemma from_image_mug:
  "from_image demo_env mug_detector mug_img
     = (mug_detector\<lparr>current_frame := 1, object_counters := [''mug'' \<mapsto> 1]\<rparr>, Inl KeyError)"
proof -
  let ?s1 = "mug_detector\<lparr>current_frame := 1\<rparr>"
  let ?d = "Some (snd (rootsift demo_kps demo_des))"
  have d: "detect_object demo_env ?s1 ''mug'' mug_features (mug_img, demo_kps, ?d) None
           = (mug_detector\<lparr>current_frame := 1, object_counters := [''mug'' \<mapsto> 1]\<rparr>,
              Inr (Some (mug_polygon, (0, 0, 639, 479))))"
    using detect_demo_step [of ?s1 BFMatcher "[]" mug_img]
    by (simp add: mug_detector_def del: detect_object.simps)
  have r: "record_detection (mug_detector\<lparr>current_frame := 1, object_counters := [''mug'' \<mapsto> 1]\<rparr>)
             ''mug'' mug_polygon (0, 0, 639, 479) mug_img Map.empty = Inl KeyError"
    by (simp add: record_mug)
  have "from_image_loop demo_env ?s1 [''mug''] demo_kps ?d mug_img Map.empty
        = (mug_detector\<lparr>current_frame := 1, object_counters := [''mug'' \<mapsto> 1]\<rparr>, Inl KeyError)"
    by (simp add: d r mug_fields del: detect_object.simps)
  then show ?thesis
    using from_image_scene [of demo_env mug_detector SIFT_create mug_img]
    by (simp add: env_fields mug_fields mug_detector_def [THEN arg_cong, of current_frame]
        del: from_image_loop.simps)
qed

lemma two_fields:
  "object_features two_detector = [(''mug'', mug_features), (''m'', [])]"
  "detector two_detector = Some SIFT_create" "detector_type two_detector = ''RootSIFT''"
  "current_frame two_detector = 0"
  by (simp_all add: two_detector_def)

lemma from_image_two:
  "from_image demo_env two_detector mug_img
     = (two_detector\<lparr>current_frame := 1, object_counters := [''mug'' \<mapsto> 1, ''m'' \<mapsto> 0]\<rparr>,
        Inr (mug_img\<lparr>drawn := [Polylines mug_polygon, PutText ''m'' 0 (0, 479)]\<rparr>,
             [''m'' \<mapsto> [(0, 0, 479, 639)]]))"
proof -
  let ?s1 = "two_detector\<lparr>current_frame := 1\<rparr>"
  let ?s2 = "two_detector\<lparr>current_frame := 1, object_counters := [''mug'' \<mapsto> 1, ''m'' \<mapsto> 0]\<rparr>"
  let ?d = "Some (snd (rootsift demo_kps demo_des))"
  have c: "[''mug'' \<mapsto> 0::int, ''m'' \<mapsto> 0, ''mug'' \<mapsto> 1] = [''mug'' \<mapsto> 1, ''m'' \<mapsto> 0]"
    by (rule ext) simp
  have d: "detect_object demo_env ?s1 ''mug'' mug_features (mug_img, demo_kps, ?d) None
           = (?s2, Inr (Some (mug_polygon, (0, 0, 639, 479))))"
    using detect_demo_step [of ?s1 BFMatcher "[]" mug_img]
    by (simp add: two_detector_def c del: detect_object.simps)
  have r: "record_detection ?s2 ''mug'' mug_polygon (0, 0, 639, 479) mug_img Map.empty
       = Inr (mug_img\<lparr>drawn := [Polylines mug_polygon, PutText ''m'' 0 (0, 479)]\<rparr>,
             [''m'' \<mapsto> [(0, 0, 479, 639)]])"
    by (simp add: record_mug mug_img_def)
  have f: "object_features ?s1 = [(''mug'', mug_features), (''m'', [])]"
    "object_features ?s2 = [(''mug'', mug_features), (''m'', [])]"
    by (simp_all add: two_fields)
  have "from_image_loop demo_env ?s1 [''mug'', ''m''] demo_kps ?d mug_img Map.empty
        = (?s2, Inr (mug_img\<lparr>drawn := [Polylines mug_polygon, PutText ''m'' 0 (0, 479)]\<rparr>,
             [''m'' \<mapsto> [(0, 0, 479, 639)]]))"
    by (simp add: f d r)
  then show ?thesis
    using from_image_scene [of demo_env two_detector SIFT_create mug_img]
    by (simp add: env_fields two_fields del: from_image_loop.simps)
qed

lemma load_images_stored:
  "load_images E self img_files = Inr fs \<Longrightarrow>
     \<forall>f \<in> set fs. \<exists>p img. p \<in> set img_files \<and> imread E p = Some img
        \<and> fst f = (if fst (shape img) > 1000 then resize E img (3 / 10) (3 / 10) else img)"
proof (induction img_files arbitrary: fs)
  case Nil
  then show ?case by simp
next
  case (Cons p ps)
  from Cons.prems obtain f fs0 where l: "load_image E self p = Inr f"
    and r: "load_images E self ps = Inr fs0" and e: "fs = f # fs0"
    by (auto split: sum.splits)
  from l obtain img where i: "imread E p = Some img"
    and s: "fst f = scale_down E img"
    by (auto simp: load_image_def Let_def split: option.splits sum.splits)
  have hd: "\<exists>p' img. p' \<in> set (p # ps) \<and> imread E p' = Some img
        \<and> fst f = (if fst (shape img) > 1000 then resize E img (3 / 10) (3 / 10) else img)"
    using i s by (auto simp: scale_down_def)
  from Cons.IH [OF r] have tl: "\<forall>f \<in> set fs0. \<exists>p' img. p' \<in> set (p # ps) \<and> imread E p' = Some img
        \<and> fst f = (if fst (shape img) > 1000 then resize E img (3 / 10) (3 / 10) else img)"
    by fastforce
  from hd tl e show ?case by simp
qed

lemma load_features_stored:
  "load_features E self object_name = Inr fs \<Longrightarrow>
     \<forall>f \<in> set fs. \<exists>p img. imread E p = Some img
        \<and> fst f = (if fst (shape img) > 1000 then resize E img (3 / 10) (3 / 10) else img)"
proof -
  assume "load_features E self object_name = Inr fs"
  then obtain files where "load_images E self files = Inr fs"
    by (auto simp: load_features_def Let_def split: sum.splits)
  from load_images_stored [OF this] show ?thesis by blast
qed

lemma load_wide_image:
  assumes "detector self = Some SIFT_create" "detector_type self = ''RootSIFT''"
  shows "load_image demo_env self ''wide/poster/p.png''
           = Inr (wide_img, demo_kps, Some (snd (rootsift demo_kps demo_des)))"
proof -
  have r: "imread demo_env ''wide/poster/p.png'' = Some wide_img"
    by (simp add: demo_env_def demo_files_def)
  have s: "scale_down demo_env wide_img = wide_img"
    by (simp add: scale_down_def wide_img_def)
  show ?thesis using assms by (simp add: load_image_def r s env_fields apply_rootsift_demo)
qed

lemma resize_demo:
  "resize demo_env wide_img (3 / 10) (3 / 10) = wide_img\<lparr>shape := (150, 600, 3)\<rparr>"
  "resize demo_env tall_img (3 / 10) (3 / 10) = tall_img\<lparr>shape := (600, 150, 3)\<rparr>"
  by (simp_all add: demo_env_def wide_img_def tall_img_def)

lemma load_tall_image:
  assumes "detector self = Some SIFT_create" "detector_type self = ''RootSIFT''"
  shows "load_image demo_env self ''wide/poster/t.png''
           = Inr (tall_img\<lparr>shape := (600, 150, 3)\<rparr>, demo_kps, Some (snd (rootsift demo_kps demo_des)))"
proof -
  have r: "imread demo_env ''wide/poster/t.png'' = Some tall_img"
    by (simp add: demo_env_def demo_files_def)
  have s: "scale_down demo_env tall_img = tall_img\<lparr>shape := (600, 150, 3)\<rparr>"
    by (simp add: scale_down_def resize_demo) (simp add: tall_img_def)
  show ?thesis using assms by (simp add: load_image_def r s env_fields apply_rootsift_demo)
qed

lemma load_poster_features:
  "load_features demo_env (mug_detector\<lparr>database_path := ''wide/''\<rparr>) ''poster''
     = Inr [(wide_img, demo_kps, Some (snd (rootsift demo_kps demo_des))),
            (tall_img\<lparr>shape := (600, 150, 3)\<rparr>, demo_kps, Some (snd (rootsift demo_kps demo_des)))]"
proof -
  have l: "listdir demo_env ''wide/poster/'' = Inr [''p.png'', ''t.png'']"
    by (simp add: demo_env_def demo_dirs_def)
  have j: "join_path ''wide/poster/'' ''p.png'' = ''wide/poster/p.png''"
    "join_path ''wide/poster/'' ''t.png'' = ''wide/poster/t.png''"
    "isfile demo_env ''wide/poster/p.png''" "isfile demo_env ''wide/poster/t.png''"
    by (simp_all add: join_path_def demo_env_def demo_files_def)
  show ?thesis
    by (simp add: load_features_def Let_def l j load_wide_image load_tall_image mug_fields)
qed

lemma init_stray: "init demo_env ''top'' ''RootSIFT'' ''BF'' = Inr stray_detector"
proof -
  have o: "object_classes [''x''] = [''x'']"
    by (simp add: object_classes_def basename_def)
  have m: "load_features demo_env self ''x'' = Inr []" if "database_path self = ''top''" for self
    using that by (simp add: load_features_def Let_def listdir_demo)
  show ?thesis
    by (simp add: init_def listdir_demo o m zero_counters_def stray_detector_def)
qed

lemma init_data: "init demo_env ''data/'' ''RootSIFT'' ''BF'' = Inl OSError"
proof -
  have o: "object_classes [''mug'', ''notes.txt''] = [''mug'', ''notes.txt'']"
    by (simp add: object_classes_def basename_def)
  have m: "load_features demo_env self ''notes.txt'' = Inl OSError"
    if "database_path self = ''data/''" for self
    using that by (simp add: load_features_def Let_def listdir_demo)
  show ?thesis
    by (simp add: init_def listdir_demo o load_mug_features m)
qed

section \<open>The ratio test\<close>

text \<open>
  Claim C5. A list of two neighbours \<open>[m, n]\<close> contributes \<open>m\<close> to the accepted
  correspondences exactly when \<open>distance m < 0.7 * distance n\<close>: the accepted
  correspondences are the first elements of the two-element lists that pass this strict
  test, in order. So a best distance of 0.69 times a positive second-best distance is
  accepted, one of 0.71 times the second-best distance is rejected, and a query descriptor
  with fewer than two retrieved neighbours is skipped.
\<close>

theorem ratio_test_strict:
  "good_matches matches =
     map (\<lambda>match. match ! 0)
       (filter (\<lambda>match. length match = 2 \<and> distance (match ! 0) < 0.7 * distance (match ! 1)) matches)
   \<and> good_matches ([m, n] # matches) =
       (if distance m < 0.7 * distance n then m # good_matches matches else good_matches matches)
   \<and> (0 < distance n \<and> distance m = 0.69 * distance n
        \<longrightarrow> good_matches ([m, n] # matches) = m # good_matches matches)
   \<and> (0 \<le> distance n \<and> distance m = 0.71 * distance n
        \<longrightarrow> good_matches ([m, n] # matches) = good_matches matches)
   \<and> (length match < 2 \<longrightarrow> good_matches (match # matches) = good_matches matches)"
proof -
  have a: "good_matches ([m, n] # matches) =
       (if distance m < 0.7 * distance n then m # good_matches matches else good_matches matches)"
    by (simp add: Let_def)
  have b: "0 < distance n \<and> distance m = 0.69 * distance n
        \<longrightarrow> good_matches ([m, n] # matches) = m # good_matches matches"
    by (simp add: Let_def)
  have c: "0 \<le> distance n \<and> distance m = 0.71 * distance n
        \<longrightarrow> good_matches ([m, n] # matches) = good_matches matches"
    by (simp add: Let_def)
  have d: "length match < 2 \<longrightarrow> good_matches (match # matches) = good_matches matches"
    by simp
  from good_matches_filter a b c d show ?thesis by blast
qed

theorem ratio_test_strict_witness:
  "good_matches [[\<lparr>queryIdx = 0, trainIdx = 3, distance = 69\<rparr>, \<lparr>queryIdx = 0, trainIdx = 5, distance = 100\<rparr>],
                 [\<lparr>queryIdx = 1, trainIdx = 4, distance = 71\<rparr>, \<lparr>queryIdx = 1, trainIdx = 2, distance = 100\<rparr>],
                 [\<lparr>queryIdx = 2, trainIdx = 7, distance = 1\<rparr>]]
     = [\<lparr>queryIdx = 0, trainIdx = 3, distance = 69\<rparr>]"
  using ratio_test_strict [where n = "\<lparr>queryIdx = 0, trainIdx = 5, distance = 100\<rparr>"
      and m = "\<lparr>queryIdx = 0, trainIdx = 3, distance = 69\<rparr>"
      and matches = "[[\<lparr>queryIdx = 1, trainIdx = 4, distance = 71\<rparr>, \<lparr>queryIdx = 1, trainIdx = 2, distance = 100\<rparr>],
                 [\<lparr>queryIdx = 2, trainIdx = 7, distance = 1\<rparr>]]"]
    ratio_test_strict [where n = "\<lparr>queryIdx = 1, trainIdx = 2, distance = 100\<rparr>"
      and m = "\<lparr>queryIdx = 1, trainIdx = 4, distance = 71\<rparr>"
      and matches = "[[\<lparr>queryIdx = 2, trainIdx = 7, distance = 1\<rparr>]]"]
    ratio_test_strict [where matches = "[]" and match = "[\<lparr>queryIdx = 2, trainIdx = 7, distance = 1\<rparr>]"]
  by simp

section \<open>The L1 step of the normalizer\<close>

text \<open>
  Claim C7, as stated: after the L1 step, the sum of every non-negative row that is not
  all zero is within \<open>eps\<close> of 1. The row \<open>[1, 0]\<close> is divided by the \<open>float32\<close> next
  above 1 and keeps the sum \<open>1 - 2^-23\<close>, which is further than \<open>eps\<close> from 1; a row of
  small sum is far from 1: \<open>[2^-23, 0]\<close> keeps about 0.54.
\<close>

theorem l1_row_not_within_eps_counterexample:
  "l1_row [1, 0] = [8388607 / 8388608, 0]
   \<and> \<not> \<bar>sum_list (l1_row [1, 0]) - 1\<bar> \<le> eps
   \<and> l1_row [1 / 8388608, 0] = [9123701 / 16777216, 0]
   \<and> \<not> \<bar>sum_list (l1_row [1 / 8388608, 0]) - 1\<bar> \<le> eps"
  by (simp add: l1_row_1_0 l1_row_small eps_def)

text \<open>
  Claim C7, amended: for a row of \<open>n\<close> non-negative entries with sum \<open>s\<close> between 1 and
  \<open>2^100\<close>, whose row sum as numpy computes it is within \<open>\<delta> * s\<close> of \<open>s\<close> for some
  \<open>\<delta> \<le> 1/8\<close> (\<open>\<delta> = 0\<close> when the summation is exact, as for the integer entries of a
  SIFT histogram), the sum of the entries stored by the L1 step is within
  \<open>2^-22 + 2 * \<delta> + n * 2^-150\<close> of 1.
\<close>

theorem l1_row_sum_float32:
  assumes nn: "\<forall>x \<in> set row. 0 \<le> x"
    and s1: "1 \<le> sum_list row"
    and in_range: "sum_list row \<le> 2 ^ 100"
    and acc: "\<bar>pairwise_sum row - sum_list row\<bar> \<le> \<delta> * sum_list row"
    and d8: "\<delta> \<le> 1 / 8"
  shows "\<bar>sum_list (l1_row row) - 1\<bar> \<le> 1 / 2 ^ 22 + 2 * \<delta> + real (length row) / 2 ^ 150"
proof -
  define s where "s = sum_list row"
  define S where "S = pairwise_sum row"
  define u :: real where "u = 1 / 2 ^ 24"
  define z where "z = S + eps32"
  define d where "d = add32 S eps32"
  have sp: "1 \<le> s" using s1 by (simp add: s_def)
  have a: "\<bar>S - s\<bar> \<le> \<delta> * s" using acc by (simp add: s_def S_def)
  have d0: "0 \<le> \<delta>"
  proof (rule ccontr)
    assume "\<not> 0 \<le> \<delta>"
    then have "\<delta> * s < 0" using sp by (simp add: mult_less_0_iff)
    with a show False by linarith
  qed
  have e: "0 \<le> eps32" "eps32 \<le> 27 / 16 * u"
    by (simp_all add: eps32_val u_def)
  have ds: "\<delta> * s \<le> 1 / 8 * s" using d8 sp by (intro mult_right_mono) auto
  have Slo': "s - \<delta> * s \<le> S" and Shi': "S \<le> s + \<delta> * s" using a by linarith+
  have Slo: "(1 - \<delta>) * s \<le> S" using Slo' by (simp add: algebra_simps)
  have Shi: "S \<le> (1 + \<delta>) * s" using Shi' by (simp add: algebra_simps)
  have S78: "7 / 8 \<le> S" using Slo' ds sp by argo
  have zpos: "7 / 8 \<le> z" using S78 e by (simp add: z_def)
  have "pow2 (- 126) \<le> \<bar>z\<bar>"
  proof -
    have "pow2 (- 126) \<le> 7 / 8" by (simp add: pow2_def)
    with zpos show ?thesis by linarith
  qed
  from fl32_error_normal [OF this]
  have dz: "\<bar>d - z\<bar> \<le> z * u"
    using zpos by (simp add: d_def add32_def z_def u_def)
  have up: "0 < u" "u \<le> 1 / 16" by (simp_all add: u_def)
  have dlo': "z - z * u \<le> d" and dhi': "d \<le> z + z * u" using dz by linarith+
  have dlo: "z * (1 - u) \<le> d" using dlo' by (simp add: algebra_simps)
  have dhi: "d \<le> z * (1 + u)" using dhi' by (simp add: algebra_simps)
  have dpos: "0 < d"
  proof -
    have "7 / 8 * (15 / 16) \<le> z * (1 - u)" using zpos up by (intro mult_mono) auto
    with dlo show ?thesis by linarith
  qed
  define \<rho> where "\<rho> = s / d"
  have rpos: "0 < \<rho>" using sp dpos by (simp add: \<rho>_def)
  have rd: "\<rho> * d = s" using dpos by (simp add: \<rho>_def)
  have lo: "1 \<le> \<rho> * ((1 + \<delta> + eps32) * (1 + u))"
  proof -
    have "z \<le> (1 + \<delta>) * s + eps32 * s"
    proof -
      have "eps32 * 1 \<le> eps32 * s" using e sp by (intro mult_left_mono) auto
      with Shi show ?thesis by (simp add: z_def)
    qed
    then have zs: "z \<le> (1 + \<delta> + eps32) * s" by (simp add: algebra_simps)
    have "d \<le> ((1 + \<delta> + eps32) * s) * (1 + u)"
    proof -
      have "z * (1 + u) \<le> ((1 + \<delta> + eps32) * s) * (1 + u)"
        using zs up by (intro mult_right_mono) auto
      with dhi show ?thesis by linarith
    qed
    then have "\<rho> * d \<le> \<rho> * (((1 + \<delta> + eps32) * s) * (1 + u))"
      using rpos by (intro mult_left_mono) auto
    then have "s \<le> (\<rho> * ((1 + \<delta> + eps32) * (1 + u))) * s"
      by (simp add: rd algebra_simps)
    then have "1 * s \<le> (\<rho> * ((1 + \<delta> + eps32) * (1 + u))) * s" by simp
    moreover have "0 < s" using sp by linarith
    ultimately show ?thesis by (simp only: mult_le_cancel_right) linarith?
  qed
  have hi: "\<rho> * ((1 - \<delta>) * (1 - u)) \<le> 1"
  proof -
    have "((1 - \<delta>) * s) * (1 - u) \<le> z * (1 - u)"
    proof -
      have "(1 - \<delta>) * s \<le> z" using Slo e by (simp add: z_def)
      then show ?thesis using up by (intro mult_right_mono) auto
    qed
    with dlo have "((1 - \<delta>) * s) * (1 - u) \<le> d" by linarith
    then have "\<rho> * (((1 - \<delta>) * s) * (1 - u)) \<le> \<rho> * d"
      using rpos by (intro mult_left_mono) auto
    then have "(\<rho> * ((1 - \<delta>) * (1 - u))) * s \<le> 1 * s"
      by (simp add: rd algebra_simps)
    moreover have "0 < s" using sp by linarith
    ultimately show ?thesis by (simp only: mult_le_cancel_right) linarith?
  qed
  have rb: "u * \<rho> + \<bar>\<rho> - 1\<bar> \<le> 4 * u + 2 * \<delta>"
    by (rule ratio_bound [OF u_def e d0 d8 lo hi rpos])
  have T: "\<bar>sum_list (l1_row row) - \<rho>\<bar> \<le> \<rho> / 2 ^ 24 + real (length row) / 2 ^ 150"
    using div32_sum_error [OF nn dpos]
    by (simp add: l1_row_def d_def S_def \<rho>_def s_def)
  have "\<bar>sum_list (l1_row row) - 1\<bar> \<le> \<bar>sum_list (l1_row row) - \<rho>\<bar> + \<bar>\<rho> - 1\<bar>"
    by linarith
  also have "\<dots> \<le> (u * \<rho> + real (length row) / 2 ^ 150) + \<bar>\<rho> - 1\<bar>"
    using T by (simp add: u_def)
  also have "\<dots> \<le> 4 * u + 2 * \<delta> + real (length row) / 2 ^ 150"
    using rb by linarith
  finally show ?thesis by (simp add: u_def)
qed

theorem l1_row_sum_float32_witness:
  "pairwise_sum [3, 0, 5] = 8 \<and> l1_row [3, 0, 5] = [3 / 8, 0, 5 / 8]
   \<and> \<bar>sum_list (l1_row [3, 0, 5]) - 1\<bar> \<le> 1 / 2 ^ 22 + 3 / 2 ^ 150"
  using l1_row_sum_float32 [of "[3, 0, 5]" 0] sum_3_0_5 l1_row_3_0_5
  by simp

section \<open>Empty descriptor sets\<close>

text \<open>
  Claim C6. When the descriptors of the reference image or of the scene are absent or
  have no row, the loop of \<open>_detect_object\<close> goes to the next reference image without
  calling the matcher: the call returns what the remaining reference images give, the
  counters are untouched and nothing is raised; a candidate alone gives \<open>(None, None)\<close>.
  With no scene descriptors, every class gets \<open>(None, None)\<close>.
\<close>

theorem empty_descriptors_skipped:
  "(\<not> has_rows des \<or> \<not> has_rows scene_des \<longrightarrow>
      detect_object E self name ((obj_img, kp, des) # rest) (si, skp, scene_des) co
        = detect_object E self name rest (si, skp, scene_des) co
      \<and> detect_object E self name [(obj_img, kp, des)] (si, skp, scene_des) co = (self, Inr None))
   \<and> (\<not> has_rows scene_des \<longrightarrow>
        detect_object E self name feats (si, skp, scene_des) co = (self, Inr None))
   \<and> (has_rows d \<longleftrightarrow> d \<noteq> None \<and> d \<noteq> Some [])"
  using detect_object_skip [of des scene_des E self name obj_img kp rest si skp co]
    detect_object_skip [of des scene_des E self name obj_img kp "[]" si skp co]
    detect_object_no_scene [of scene_des E self name feats si skp co]
    has_rows_iff [of d]
  by auto

theorem empty_descriptors_skipped_witness:
  "detect_object demo_env mug_detector ''mug'' ((mug_img, [], None) # mug_features) mug_scene None
     = detect_object demo_env mug_detector ''mug'' mug_features mug_scene None
   \<and> detect_object demo_env mug_detector ''mug'' [(mug_img, [], Some [])] mug_scene None
     = (mug_detector, Inr None)
   \<and> detect_object demo_env mug_detector ''mug'' mug_features (mug_img, [], None) None
     = (mug_detector, Inr None)"
  using empty_descriptors_skipped [where des = None and E = demo_env and self = mug_detector
      and name = "''mug''" and obj_img = mug_img and kp = "[]" and rest = mug_features
      and si = mug_img and skp = demo_kps and scene_des = "Some (snd (rootsift demo_kps demo_des))"
      and co = None]
    empty_descriptors_skipped [where des = "Some []" and E = demo_env and self = mug_detector
      and name = "''mug''" and obj_img = mug_img and kp = "[]" and rest = "[]"
      and si = mug_img and skp = demo_kps and scene_des = "Some (snd (rootsift demo_kps demo_des))"
      and co = None]
    empty_descriptors_skipped [where scene_des = None and E = demo_env and self = mug_detector
      and name = "''mug''" and feats = mug_features and si = mug_img and skp = "[]" and co = None]
  by (simp add: has_rows_def mug_scene_def)

section \<open>The correspondence threshold and the size rejection\<close>

text \<open>
  Claim C4. For a reference image whose descriptors and the scene's are non-empty: when the
  number of accepted correspondences does not exceed \<open>min_points\<close>, the result is that of
  the remaining reference images; when it exceeds \<open>min_points\<close> and the homography was
  estimated, the call returns at this reference image whatever the remaining ones are,
  with \<open>(None, None)\<close> when the bounding box has width below \<open>min_object_width\<close>,
  height below \<open>min_object_height\<close> or area below \<open>min_object_area\<close>, and with the
  polygon and the box otherwise. The constructor sets the thresholds to 200, 10, 10, 100.
\<close>

theorem threshold_and_size_rejection:
  "(has_rows des \<and> has_rows scene_des \<and> matcher self = Some mt
      \<and> good = good_matches (knnMatch E mt (the des) (the scene_des)) \<longrightarrow>
      (int (length good) \<le> min_points self \<longrightarrow>
         detect_object E self name ((obj_img, kp, des) # rest) (si, skp, scene_des) co
           = detect_object E self name rest (si, skp, scene_des) co)
      \<and> (int (length good) > min_points self \<and> object_counters self name = Some c
           \<and> points_at kp (map queryIdx good) = Inr src
           \<and> points_at skp (map trainIdx good) = Inr dst
           \<and> findHomography E src dst = Some M
           \<and> template_size obj_img co = (w0, h0)
           \<and> poly = map (\<lambda>(x, y). (np_int32 E x, np_int32 E y))
                      (map (transform_point E M) [(0, 0), (0, h0 - 1), (w0 - 1, h0 - 1), (w0 - 1, 0)])
           \<and> extract_rectangle poly = Inr (x, y, w, h) \<longrightarrow>
         detect_object E self name ((obj_img, kp, des) # rest) (si, skp, scene_des) co
           = (self\<lparr>object_counters := (object_counters self)(name \<mapsto> c + 1)\<rparr>,
              if sint w < min_object_width self \<or> sint h < min_object_height self
                 \<or> sint (w * h) < min_object_area self
              then Inr None else Inr (Some (poly, (x, y, w, h))))))
   \<and> (init E dbpath dtype mtype = Inr self0 \<longrightarrow>
        min_points self0 = 200 \<and> min_object_width self0 = 10
        \<and> min_object_height self0 = 10 \<and> min_object_area self0 = 100)"
proof (intro conjI impI)
  assume a: "has_rows des \<and> has_rows scene_des \<and> matcher self = Some mt
      \<and> good = good_matches (knnMatch E mt (the des) (the scene_des))"
    and b: "int (length good) \<le> min_points self"
  then show "detect_object E self name ((obj_img, kp, des) # rest) (si, skp, scene_des) co
           = detect_object E self name rest (si, skp, scene_des) co"
    using detect_object_below [of des scene_des self mt E name obj_img kp rest si skp co] by simp
next
  assume a: "has_rows des \<and> has_rows scene_des \<and> matcher self = Some mt
      \<and> good = good_matches (knnMatch E mt (the des) (the scene_des))"
    and b: "int (length good) > min_points self \<and> object_counters self name = Some c
           \<and> points_at kp (map queryIdx good) = Inr src
           \<and> points_at skp (map trainIdx good) = Inr dst
           \<and> findHomography E src dst = Some M
           \<and> template_size obj_img co = (w0, h0)
           \<and> poly = map (\<lambda>(x, y). (np_int32 E x, np_int32 E y))
                      (map (transform_point E M) [(0, 0), (0, h0 - 1), (w0 - 1, h0 - 1), (w0 - 1, 0)])
           \<and> extract_rectangle poly = Inr (x, y, w, h)"
  have p: "detect_object E self name ((obj_img, kp, des) # rest) (si, skp, scene_des) co
       = (self\<lparr>object_counters := (object_counters self)(name \<mapsto> c + 1)\<rparr>,
          localize E (self\<lparr>object_counters := (object_counters self)(name \<mapsto> c + 1)\<rparr>)
            obj_img kp skp good co)"
    using a b detect_object_pass [of des scene_des self mt E name c obj_img kp rest si skp co]
    by simp
  have l: "localize E self obj_img kp skp good co
       = (if too_small self w h then Inr None else Inr (Some (poly, (x, y, w, h))))"
  proof (rule localize_some)
    show "points_at kp (map queryIdx good) = Inr src" using b by blast
    show "points_at skp (map trainIdx good) = Inr dst" using b by blast
    show "findHomography E src dst = Some M" using b by blast
    show "template_size obj_img co = (w0, h0)" using b by blast
    show "poly = map (\<lambda>(x, y). (np_int32 E x, np_int32 E y))
                      (map (transform_point E M) [(0, 0), (0, h0 - 1), (w0 - 1, h0 - 1), (w0 - 1, 0)])"
      using b by blast
    show "extract_rectangle poly = Inr (x, y, w, h)" using b by blast
  qed
  show "detect_object E self name ((obj_img, kp, des) # rest) (si, skp, scene_des) co
           = (self\<lparr>object_counters := (object_counters self)(name \<mapsto> c + 1)\<rparr>,
              if sint w < min_object_width self \<or> sint h < min_object_height self
                 \<or> sint (w * h) < min_object_area self
              then Inr None else Inr (Some (poly, (x, y, w, h))))"
    unfolding p by (simp add: l too_small_def)
next
  assume i: "init E dbpath dtype mtype = Inr self0"
  show "min_points self0 = 200" "min_object_width self0 = 10"
    "min_object_height self0 = 10" "min_object_area self0 = 100"
    using init_fields [OF i] by auto
qed

theorem threshold_and_size_rejection_witness:
  "detect_object sparse_env mug_detector ''mug'' mug_features mug_scene None = (mug_detector, Inr None)
   \<and> detect_object shrink_env mug_detector ''mug'' (mug_features @ mug_features) mug_scene None
       = (mug_detector\<lparr>object_counters := [''mug'' \<mapsto> 1]\<rparr>, Inr None)
   \<and> min_points mug_detector = 200 \<and> min_object_area mug_detector = 100"
proof -
  let ?d = "Some (snd (rootsift demo_kps demo_des))"
  note t1 = threshold_and_size_rejection [where E = sparse_env and self = mug_detector
      and des = ?d and scene_des = ?d and mt = BFMatcher
      and good = "good_matches (take 200 demo_matches)" and name = "''mug''"
      and obj_img = mug_img and kp = demo_kps and rest = "[]" and si = mug_img
      and skp = demo_kps and co = None, THEN conjunct1]
  have a: "detect_object sparse_env mug_detector ''mug'' mug_features mug_scene None
             = (mug_detector, Inr None)"
    using t1 unfolding mug_features_def mug_scene_def
    by (simp add: has_rows_demo mug_fields env_fields length_good_sparse del: detect_object.simps)
      simp
  note t2 = threshold_and_size_rejection [where E = shrink_env and self = mug_detector
      and des = ?d and scene_des = ?d and mt = BFMatcher
      and good = "good_matches demo_matches" and name = "''mug''"
      and obj_img = mug_img and kp = demo_kps and rest = mug_features and si = mug_img
      and skp = demo_kps and co = None and c = 0 and src = "map pt demo_kps"
      and dst = "map pt demo_kps" and M = "[[1 / 100, 0, 0], [0, 1 / 100, 0], [0, 0, 1]]"
      and ?w0.0 = 640 and ?h0.0 = 480 and poly = "[(0, 0), (0, 4), (6, 4), (6, 0)]"
      and x = 0 and y = 0 and w = 6 and h = 4, THEN conjunct1]
  have c: "(object_counters mug_detector)(''mug'' \<mapsto> 1) = [''mug'' \<mapsto> 1]"
    by (simp add: mug_detector_def)
  have b: "detect_object shrink_env mug_detector ''mug'' (mug_features @ mug_features) mug_scene None
       = (mug_detector\<lparr>object_counters := [''mug'' \<mapsto> 1]\<rparr>, Inr None)"
    using t2 unfolding mug_features_def mug_scene_def
    by (simp add: has_rows_demo mug_fields env_fields length_good_demo points_demo
        template_mug project_def trunc32_vals extract_shrunk c del: detect_object.simps)
  note t3 = threshold_and_size_rejection [where E = demo_env and dbpath = "''db/''"
      and dtype = "''RootSIFT''" and mtype = "''BF''" and ?self0.0 = mug_detector, THEN conjunct2]
  have d: "min_points mug_detector = 200 \<and> min_object_area mug_detector = 100"
    using t3 init_mug by simp
  from a b d show ?thesis by simp
qed

section \<open>The detection counter\<close>

text \<open>
  Claim C2, as stated: the counter of a class is incremented if and only if a localization
  is returned for it. It fails when the candidate is rejected for its size: with a
  homography that maps the reference image onto a box of 6 by 4 pixels, the call returns
  \<open>(None, None)\<close> and the counter has gone from 0 to 1.
\<close>

theorem size_rejected_increment_counterexample:
  "object_counters mug_detector ''mug'' = Some 0
   \<and> detect_object shrink_env mug_detector ''mug'' mug_features mug_scene None
       = (mug_detector\<lparr>object_counters := [''mug'' \<mapsto> 1]\<rparr>, Inr None)"
proof -
  have c: "(object_counters mug_detector)(''mug'' \<mapsto> 1) = [''mug'' \<mapsto> 1]"
    by (simp add: mug_detector_def)
  have "detect_object shrink_env mug_detector ''mug'' (mug_features @ []) mug_scene None
       = (mug_detector\<lparr>object_counters := (object_counters mug_detector)(''mug'' \<mapsto> 0 + 1)\<rparr>,
          localize shrink_env mug_detector mug_img demo_kps demo_kps (good_matches demo_matches) None)"
    unfolding mug_scene_def
    by (rule detect_mug_features) (simp_all add: env_fields mug_fields)
  then show ?thesis
    by (simp add: localize_shrink mug_fields c del: detect_object.simps)
qed

text \<open>
  Claim C2, amended: a call of \<open>_detect_object\<close> for a class either leaves the instance
  as it is or adds exactly 1 to the counter of that class, and changes nothing else; it
  adds 1 exactly when some reference image has more than \<open>min_points\<close> accepted
  correspondences (line 117), whether the candidate is then returned or not; every returned
  localization comes with the increment; and over a sequence of calls for the class that
  each return a localization, the counter grows by the number of calls.
\<close>

theorem counter_increment:
  "(detect_object E self name feats scene co = (self', r) \<longrightarrow>
      (self' = self
       \<or> (\<exists>c. object_counters self name = Some c
              \<and> self' = self\<lparr>object_counters := (object_counters self)(name \<mapsto> c + 1)\<rparr>))
      \<and> ((\<exists>loc. r = Inr (Some loc)) \<longrightarrow>
            (\<exists>c. object_counters self name = Some c
              \<and> self' = self\<lparr>object_counters := (object_counters self)(name \<mapsto> c + 1)\<rparr>))
      \<and> (object_counters self name = Some c \<longrightarrow>
            (object_counters self' name = Some (c + 1)
               \<longleftrightarrow> (\<exists>f \<in> set feats. passes_threshold E self f scene))))
   \<and> (detect_frames E self name feats scenes = (self'', rs)
        \<and> object_counters self name = Some c
        \<and> (\<forall>r \<in> set rs. \<exists>loc. r = Inr (Some loc)) \<longrightarrow>
        object_counters self'' name = Some (c + int (length scenes)))"
proof (intro conjI impI)
  assume d: "detect_object E self name feats scene co = (self', r)"
  from detect_object_effect [OF d]
  show "self' = self
       \<or> (\<exists>c. object_counters self name = Some c
              \<and> self' = self\<lparr>object_counters := (object_counters self)(name \<mapsto> c + 1)\<rparr>)"
    by (auto simp: bumped_def)
next
  assume d: "detect_object E self name feats scene co = (self', r)"
    and "\<exists>loc. r = Inr (Some loc)"
  with detect_object_effect [OF d]
  show "\<exists>c. object_counters self name = Some c
              \<and> self' = self\<lparr>object_counters := (object_counters self)(name \<mapsto> c + 1)\<rparr>"
    by (auto simp: bumped_def)
next
  assume d: "detect_object E self name feats scene co = (self', r)"
    and c: "object_counters self name = Some c"
  from detect_object_passes [OF c, of E feats scene co] d
  have "self' = (if \<exists>f \<in> set feats. passes_threshold E self f scene
          then self\<lparr>object_counters := (object_counters self)(name \<mapsto> c + 1)\<rparr> else self)"
    by simp
  then show "object_counters self' name = Some (c + 1)
               \<longleftrightarrow> (\<exists>f \<in> set feats. passes_threshold E self f scene)"
    using c by (simp split: if_splits)
next
  assume "detect_frames E self name feats scenes = (self'', rs)
        \<and> object_counters self name = Some c
        \<and> (\<forall>r \<in> set rs. \<exists>loc. r = Inr (Some loc))"
  then show "object_counters self'' name = Some (c + int (length scenes))"
    using detect_frames_count [of E self name feats scenes self'' rs c] by blast
qed

theorem counter_increment_witness:
  "detect_object demo_env mug_detector ''mug'' mug_features mug_scene None
     = (mug_detector\<lparr>object_counters := [''mug'' \<mapsto> 1]\<rparr>, Inr (Some (mug_polygon, (0, 0, 639, 479))))
   \<and> passes_threshold demo_env mug_detector (hd mug_features) mug_scene
   \<and> object_counters (fst (detect_frames demo_env mug_detector ''mug'' mug_features
         [mug_scene, mug_scene, mug_scene])) ''mug'' = Some 3"
proof -
  have c: "(object_counters mug_detector)(''mug'' \<mapsto> 1) = [''mug'' \<mapsto> 1]"
    by (simp add: mug_detector_def)
  have a: "detect_object demo_env mug_detector ''mug'' mug_features mug_scene None
     = (mug_detector\<lparr>object_counters := [''mug'' \<mapsto> 1]\<rparr>, Inr (Some (mug_polygon, (0, 0, 639, 479))))"
    using detect_demo_step [of mug_detector BFMatcher "[]" mug_img]
    by (simp add: mug_fields mug_scene_def c del: detect_object.simps)
  note t1 = counter_increment [where E = demo_env and self = mug_detector and name = "''mug''"
      and feats = mug_features and scene = mug_scene and co = None and c = 0
      and self' = "mug_detector\<lparr>object_counters := [''mug'' \<mapsto> 1]\<rparr>"
      and r = "Inr (Some (mug_polygon, (0, 0, 639, 479)))", THEN conjunct1]
  have "object_counters mug_detector ''mug'' = Some 0 \<longrightarrow>
            (object_counters (mug_detector\<lparr>object_counters := [''mug'' \<mapsto> 1]\<rparr>) ''mug'' = Some (0 + 1)
               \<longleftrightarrow> (\<exists>f \<in> set mug_features. passes_threshold demo_env mug_detector f mug_scene))"
    using t1 a by blast
  then have b: "\<exists>f \<in> set mug_features. passes_threshold demo_env mug_detector f mug_scene"
    by (simp add: mug_fields)
  then have b': "passes_threshold demo_env mug_detector (hd mug_features) mug_scene"
    by (simp add: mug_features_def)
  have f: "detect_frames demo_env mug_detector ''mug'' mug_features [mug_scene, mug_scene, mug_scene]
      = (mug_detector\<lparr>object_counters := [''mug'' \<mapsto> 3]\<rparr>,
         [Inr (Some (mug_polygon, (0, 0, 639, 479))), Inr (Some (mug_polygon, (0, 0, 639, 479))),
          Inr (Some (mug_polygon, (0, 0, 639, 479)))])"
  proof -
    have m: "mug_detector = mug_detector\<lparr>object_counters := [''mug'' \<mapsto> 0]\<rparr>"
      by (simp add: mug_detector_def)
    have "detect_frames demo_env (mug_detector\<lparr>object_counters := [''mug'' \<mapsto> 0]\<rparr>) ''mug'' mug_features [mug_scene, mug_scene, mug_scene]
      = (mug_detector\<lparr>object_counters := [''mug'' \<mapsto> 3]\<rparr>,
         [Inr (Some (mug_polygon, (0, 0, 639, 479))), Inr (Some (mug_polygon, (0, 0, 639, 479))),
          Inr (Some (mug_polygon, (0, 0, 639, 479)))])"
      by (simp add: detect_mug_counter del: detect_object.simps)
    then show ?thesis using m by simp
  qed
  note t2 = counter_increment [where E = demo_env and self = mug_detector and name = "''mug''"
      and feats = mug_features and scenes = "[mug_scene, mug_scene, mug_scene]" and c = 0
      and self'' = "mug_detector\<lparr>object_counters := [''mug'' \<mapsto> 3]\<rparr>"
      and rs = "[Inr (Some (mug_polygon, (0, 0, 639, 479))), Inr (Some (mug_polygon, (0, 0, 639, 479))),
          Inr (Some (mug_polygon, (0, 0, 639, 479)))]", THEN conjunct2]
  have "object_counters (mug_detector\<lparr>object_counters := [''mug'' \<mapsto> 3]\<rparr>) ''mug''
           = Some (0 + int (length [mug_scene, mug_scene, mug_scene]))"
    by (rule t2 [rule_format]) (simp add: f mug_fields del: detect_frames.simps)
  then have d: "object_counters (mug_detector\<lparr>object_counters := [''mug'' \<mapsto> 3]\<rparr>) ''mug'' = Some 3"
    by simp
  from a b' d f show ?thesis by (simp del: detect_object.simps detect_frames.simps)
qed

section \<open>A failed homography estimation\<close>

text \<open>
  Claim C3 says that a failed estimation gives \<open>(None, None)\<close> and no error. The code
  passes the \<open>None\<close> of \<open>cv2.findHomography\<close> to \<open>cv2.perspectiveTransform\<close> unchecked:
  for a reference image with more than \<open>min_points\<close> accepted correspondences whose
  estimation fails, \<open>_detect_object\<close> raises after the increment of the counter,
  and \<open>from_image\<close> passes the exception on to its caller.
\<close>

theorem homography_failure_raises:
  "(has_rows des \<and> has_rows scene_des \<and> matcher self = Some mt
      \<and> good = good_matches (knnMatch E mt (the des) (the scene_des))
      \<and> int (length good) > min_points self \<and> object_counters self name = Some c
      \<and> points_at kp (map queryIdx good) = Inr src
      \<and> points_at skp (map trainIdx good) = Inr dst
      \<and> findHomography E src dst = None \<longrightarrow>
      detect_object E self name ((obj_img, kp, des) # rest) (si, skp, scene_des) co
        = (self\<lparr>object_counters := (object_counters self)(name \<mapsto> c + 1)\<rparr>, Inl CvError))
   \<and> (map_of (object_features self) k = Some feats
        \<and> detect_object E self k feats (frame, skp, scene_des) None = (self', Inl e) \<longrightarrow>
        from_image_loop E self (k # keys) skp scene_des frame detected = (self', Inl e))"
proof (intro conjI impI)
  assume a: "has_rows des \<and> has_rows scene_des \<and> matcher self = Some mt
      \<and> good = good_matches (knnMatch E mt (the des) (the scene_des))
      \<and> int (length good) > min_points self \<and> object_counters self name = Some c
      \<and> points_at kp (map queryIdx good) = Inr src
      \<and> points_at skp (map trainIdx good) = Inr dst
      \<and> findHomography E src dst = None"
  have p: "detect_object E self name ((obj_img, kp, des) # rest) (si, skp, scene_des) co
       = (self\<lparr>object_counters := (object_counters self)(name \<mapsto> c + 1)\<rparr>,
          localize E (self\<lparr>object_counters := (object_counters self)(name \<mapsto> c + 1)\<rparr>)
            obj_img kp skp good co)"
  proof -
    from a have g: "good = good_matches (knnMatch E mt (the des) (the scene_des))" by blast
    from a have h: "has_rows des" "has_rows scene_des" "matcher self = Some mt"
      "int (length (good_matches (knnMatch E mt (the des) (the scene_des)))) > min_points self"
      "object_counters self name = Some c"
      by auto
    show ?thesis unfolding g by (rule detect_object_pass [OF h])
  qed
  have l: "localize E self obj_img kp skp good co = Inl CvError"
  proof (rule localize_no_homography)
    show "points_at kp (map queryIdx good) = Inr src" using a by blast
    show "points_at skp (map trainIdx good) = Inr dst" using a by blast
    show "findHomography E src dst = None" using a by blast
  qed
  show "detect_object E self name ((obj_img, kp, des) # rest) (si, skp, scene_des) co
        = (self\<lparr>object_counters := (object_counters self)(name \<mapsto> c + 1)\<rparr>, Inl CvError)"
    unfolding p by (simp add: l)
next
  assume "map_of (object_features self) k = Some feats
        \<and> detect_object E self k feats (frame, skp, scene_des) None = (self', Inl e)"
  then show "from_image_loop E self (k # keys) skp scene_des frame detected = (self', Inl e)"
    by simp
qed

theorem homography_failure_raises_witness:
  "detect_object degenerate_env mug_detector ''mug'' mug_features mug_scene None
     = (mug_detector\<lparr>object_counters := [''mug'' \<mapsto> 1]\<rparr>, Inl CvError)
   \<and> from_image degenerate_env mug_detector mug_img
     = (mug_detector\<lparr>current_frame := 1, object_counters := [''mug'' \<mapsto> 1]\<rparr>, Inl CvError)"
proof -
  let ?d = "Some (snd (rootsift demo_kps demo_des))"
  have c: "(object_counters mug_detector)(''mug'' \<mapsto> 1) = [''mug'' \<mapsto> 1]"
    by (simp add: mug_detector_def)
  note t1 = homography_failure_raises [where E = degenerate_env and des = ?d and scene_des = ?d
      and mt = BFMatcher and good = "good_matches demo_matches" and name = "''mug''"
      and obj_img = mug_img and kp = demo_kps and rest = "[]"
      and skp = demo_kps and co = None and c = 0 and src = "map pt demo_kps"
      and dst = "map pt demo_kps", THEN conjunct1, rule_format]
  have a: "detect_object degenerate_env self ''mug'' mug_features (si, demo_kps, ?d) None
     = (self\<lparr>object_counters := (object_counters self)(''mug'' \<mapsto> 0 + 1)\<rparr>, Inl CvError)"
    if "matcher self = Some BFMatcher" "min_points self = 200" "object_counters self ''mug'' = Some 0"
    for self si
    unfolding mug_features_def
    by (rule t1) (simp add: that has_rows_demo env_fields length_good_demo points_demo)
  have a1: "detect_object degenerate_env mug_detector ''mug'' mug_features mug_scene None
     = (mug_detector\<lparr>object_counters := [''mug'' \<mapsto> 1]\<rparr>, Inl CvError)"
    using a [of mug_detector mug_img] by (simp add: mug_fields mug_scene_def c del: detect_object.simps)
  let ?s1 = "mug_detector\<lparr>current_frame := current_frame mug_detector + 1\<rparr>"
  have a2: "detect_object degenerate_env ?s1 ''mug'' mug_features (mug_img, demo_kps, ?d) None
     = (mug_detector\<lparr>current_frame := 1, object_counters := [''mug'' \<mapsto> 1]\<rparr>, Inl CvError)"
    using a [of ?s1 mug_img] by (simp add: mug_detector_def del: detect_object.simps)
  note t2 = homography_failure_raises [where E = degenerate_env and self = ?s1 and k = "''mug''"
      and feats = mug_features and frame = mug_img and skp = demo_kps and scene_des = ?d
      and self' = "mug_detector\<lparr>current_frame := 1, object_counters := [''mug'' \<mapsto> 1]\<rparr>"
      and e = CvError and keys = "[]" and detected = Map.empty, THEN conjunct2, rule_format]
  have b: "from_image_loop degenerate_env ?s1 [''mug''] demo_kps ?d mug_img Map.empty
      = (mug_detector\<lparr>current_frame := 1, object_counters := [''mug'' \<mapsto> 1]\<rparr>, Inl CvError)"
    by (rule t2) (simp add: a2 mug_fields del: detect_object.simps)
  have "from_image degenerate_env mug_detector mug_img
     = (mug_detector\<lparr>current_frame := 1, object_counters := [''mug'' \<mapsto> 1]\<rparr>, Inl CvError)"
    using from_image_scene [of degenerate_env mug_detector SIFT_create mug_img] b
    by (simp add: env_fields mug_fields del: from_image_loop.simps)
  with a1 show ?thesis by simp
qed

section \<open>At most one increment per class and frame\<close>

text \<open>
  Claim C10. One call of \<open>from_image\<close> leaves the counter of every class as it was or
  adds exactly 1 to it, whatever the call returns or raises: the keys of the dictionary
  \<open>object_features\<close> are distinct (the constructor builds it so), \<open>_detect_object\<close> is
  called once per key, and one call of \<open>_detect_object\<close> increments at most once, since
  the branch with the increment always leaves the loop, also when the candidate is then
  rejected for its size.
\<close>

theorem one_increment_per_frame:
  "(distinct (map fst (object_features self)) \<and> from_image E self frame = (self', r) \<longrightarrow>
      object_counters self' name = object_counters self name
      \<or> (\<exists>c. object_counters self name = Some c \<and> object_counters self' name = Some (c + 1)))
   \<and> (detect_object E self name feats scene co = (self1, r1) \<longrightarrow>
        self1 = self
        \<or> (\<exists>c. object_counters self name = Some c
               \<and> self1 = self\<lparr>object_counters := (object_counters self)(name \<mapsto> c + 1)\<rparr>))
   \<and> (init E dbpath dtype mtype = Inr self0 \<longrightarrow> distinct (map fst (object_features self0)))"
proof (intro conjI impI)
  assume "distinct (map fst (object_features self)) \<and> from_image E self frame = (self', r)"
  then show "object_counters self' name = object_counters self name
      \<or> (\<exists>c. object_counters self name = Some c \<and> object_counters self' name = Some (c + 1))"
    using from_image_counters [of self E frame self' r name] by blast
next
  assume d: "detect_object E self name feats scene co = (self1, r1)"
  from detect_object_effect [OF d]
  show "self1 = self
        \<or> (\<exists>c. object_counters self name = Some c
               \<and> self1 = self\<lparr>object_counters := (object_counters self)(name \<mapsto> c + 1)\<rparr>)"
    by (auto simp: bumped_def)
next
  assume "init E dbpath dtype mtype = Inr self0"
  then show "distinct (map fst (object_features self0))" by (rule init_distinct)
qed

theorem one_increment_per_frame_witness:
  "distinct (map fst (object_features twice_detector))
   \<and> object_counters twice_detector ''mug'' = Some 0
   \<and> from_image shrink_env twice_detector mug_img
       = (twice_detector\<lparr>current_frame := 1, object_counters := [''mug'' \<mapsto> 1]\<rparr>,
          Inr (mug_img, Map.empty))
   \<and> (object_counters (twice_detector\<lparr>current_frame := 1, object_counters := [''mug'' \<mapsto> 1]\<rparr>) ''mug''
         = object_counters twice_detector ''mug''
       \<or> object_counters (twice_detector\<lparr>current_frame := 1, object_counters := [''mug'' \<mapsto> 1]\<rparr>) ''mug''
         = Some (0 + 1))"
proof -
  have a: "distinct (map fst (object_features twice_detector))"
    "object_counters twice_detector ''mug'' = Some 0"
    by (simp_all add: twice_detector_def mug_detector_def)
  note t = one_increment_per_frame [where self = twice_detector and E = shrink_env
      and frame = mug_img and name = "''mug''"
      and self' = "twice_detector\<lparr>current_frame := 1, object_counters := [''mug'' \<mapsto> 1]\<rparr>"
      and r = "Inr (mug_img, Map.empty)", THEN conjunct1, rule_format]
  have "object_counters (twice_detector\<lparr>current_frame := 1, object_counters := [''mug'' \<mapsto> 1]\<rparr>) ''mug''
         = object_counters twice_detector ''mug''
       \<or> (\<exists>c. object_counters twice_detector ''mug'' = Some c
         \<and> object_counters (twice_detector\<lparr>current_frame := 1, object_counters := [''mug'' \<mapsto> 1]\<rparr>) ''mug''
         = Some (c + 1))"
    by (rule t) (simp add: a from_image_twice)
  with a from_image_twice show ?thesis by auto
qed

section \<open>The key of a recorded detection\<close>

text \<open>
  Claim C1 says that an accepted localization is recorded under the full class name, so
  that a database with the single class \<open>mug\<close> and a scene equal to its reference image
  gives the map \<open>{"mug": [box]}\<close>. Line 168 takes \<open>obj_features[0]\<close>, the first character
  of the class name. In that scenario the box is recorded under \<open>m\<close> and line 179 then
  looks up the counter of \<open>m\<close>, which does not exist: \<open>from_image\<close> raises \<open>KeyError\<close>. With
  a second class named \<open>m\<close> the call returns, and the detection of \<open>mug\<close> is in the map
  under \<open>m\<close>, labelled with the counter of \<open>m\<close>.
\<close>

theorem detection_key_is_first_character:
  "init demo_env ''db/'' ''RootSIFT'' ''BF'' = Inr mug_detector
   \<and> from_image demo_env mug_detector mug_img
       = (mug_detector\<lparr>current_frame := 1, object_counters := [''mug'' \<mapsto> 1]\<rparr>, Inl KeyError)
   \<and> init demo_env ''db2/'' ''RootSIFT'' ''BF'' = Inr two_detector
   \<and> from_image demo_env two_detector mug_img
       = (two_detector\<lparr>current_frame := 1, object_counters := [''mug'' \<mapsto> 1, ''m'' \<mapsto> 0]\<rparr>,
          Inr (mug_img\<lparr>drawn := [Polylines mug_polygon, PutText ''m'' 0 (0, 479)]\<rparr>,
               [''m'' \<mapsto> [(0, 0, 479, 639)]]))"
  using init_mug from_image_mug init_two from_image_two by blast

section \<open>Downscaling of reference images\<close>

text \<open>
  Claim C8, as stated: a reference image is downscaled if and only if its largest
  dimension exceeds 1000. It fails for an image that is wide and not high: 500 rows by
  2000 columns is stored at its original size.
\<close>

theorem wide_image_not_scaled_counterexample:
  "largest_dimension wide_img = 2000
   \<and> load_image demo_env mug_detector ''wide/poster/p.png''
       = Inr (wide_img, demo_kps, Some (snd (rootsift demo_kps demo_des)))
   \<and> shape wide_img = (500, 2000, 3)
   \<and> shape (resize demo_env wide_img (3 / 10) (3 / 10)) = (150, 600, 3)"
  by (simp add: largest_dimension_def load_wide_image mug_fields resize_demo) (simp add: wide_img_def)

text \<open>
  Claim C8, amended: the image stored for a reference file is the image read from the
  file, resized by the factor 0.3 in both directions when its number of rows
  (\<open>img.shape[0]\<close>) exceeds 1000, and unchanged otherwise.
\<close>

theorem scaled_down_by_height:
  "(load_features E self object_name = Inr fs \<longrightarrow>
      (\<forall>f \<in> set fs. \<exists>p img. imread E p = Some img
          \<and> fst f = (if fst (shape img) > 1000 then resize E img (3 / 10) (3 / 10) else img)))
   \<and> (load_image E self img_file = Inr (stored, kps, descs) \<longrightarrow>
        (\<exists>img. imread E img_file = Some img
           \<and> stored = (if fst (shape img) > 1000 then resize E img (3 / 10) (3 / 10) else img)))"
proof (intro conjI impI)
  assume "load_features E self object_name = Inr fs"
  then show "\<forall>f \<in> set fs. \<exists>p img. imread E p = Some img
          \<and> fst f = (if fst (shape img) > 1000 then resize E img (3 / 10) (3 / 10) else img)"
    by (rule load_features_stored)
next
  assume "load_image E self img_file = Inr (stored, kps, descs)"
  then show "\<exists>img. imread E img_file = Some img
           \<and> stored = (if fst (shape img) > 1000 then resize E img (3 / 10) (3 / 10) else img)"
    by (auto simp: load_image_def Let_def scale_down_def split: option.splits sum.splits)
qed

theorem scaled_down_by_height_witness:
  "load_image demo_env mug_detector ''wide/poster/t.png''
     = Inr (tall_img\<lparr>shape := (600, 150, 3)\<rparr>, demo_kps, Some (snd (rootsift demo_kps demo_des)))
   \<and> imread demo_env ''wide/poster/t.png'' = Some tall_img
   \<and> tall_img\<lparr>shape := (600, 150, 3)\<rparr> = resize demo_env tall_img (3 / 10) (3 / 10)
   \<and> load_image demo_env mug_detector ''wide/poster/p.png''
     = Inr (wide_img, demo_kps, Some (snd (rootsift demo_kps demo_des)))
   \<and> imread demo_env ''wide/poster/p.png'' = Some wide_img"
proof -
  have a: "load_image demo_env mug_detector ''wide/poster/t.png''
     = Inr (tall_img\<lparr>shape := (600, 150, 3)\<rparr>, demo_kps, Some (snd (rootsift demo_kps demo_des)))"
    by (simp add: load_tall_image mug_fields)
  have b: "load_image demo_env mug_detector ''wide/poster/p.png''
     = Inr (wide_img, demo_kps, Some (snd (rootsift demo_kps demo_des)))"
    by (simp add: load_wide_image mug_fields)
  have r: "imread demo_env ''wide/poster/t.png'' = Some tall_img"
    "imread demo_env ''wide/poster/p.png'' = Some wide_img"
    by (simp_all add: demo_env_def demo_files_def)
  have h: "fst (shape tall_img) > 1000" "\<not> fst (shape wide_img) > 1000"
    by (simp_all add: tall_img_def wide_img_def)
  note t = scaled_down_by_height [where E = demo_env and self = mug_detector
      and img_file = "''wide/poster/t.png''" and stored = "tall_img\<lparr>shape := (600, 150, 3)\<rparr>"
      and kps = demo_kps and descs = "Some (snd (rootsift demo_kps demo_des))",
      THEN conjunct2, rule_format, OF a]
  from t r(1) h(1) have c: "tall_img\<lparr>shape := (600, 150, 3)\<rparr> = resize demo_env tall_img (3 / 10) (3 / 10)"
    by auto
  from a b c r show ?thesis by blast
qed

section \<open>The object classes\<close>

text \<open>
  Claim C9 says that the object classes are exactly the immediate subdirectories of the
  database root, without \<open>IGNORE\<close>. Line 43 takes every entry that \<open>os.listdir\<close> returns,
  directory or not, although the comment above it speaks of directories and
  \<open>_load_features\<close> does filter its own listing by kind. With \<open>database_path = 'data/'\<close>,
  holding the directory \<open>mug\<close> and the regular file \<open>notes.txt\<close>, line 43 makes
  \<open>notes.txt\<close> a class and the constructor then raises at the listing of line 74. With
  \<open>database_path = 'top'\<close>, where \<open>top\<close> holds only the regular file \<open>x\<close> and a directory
  \<open>topx\<close> lies beside it, the constructor succeeds with the class \<open>x\<close>, which is no
  subdirectory (line 74 lists \<open>database_path + object_name + '/'\<close>).
\<close>

theorem stray_file_becomes_class:
  "listdir demo_env ''top'' = Inr [''x'']
   \<and> init demo_env ''top'' ''RootSIFT'' ''BF'' = Inr stray_detector
   \<and> objects stray_detector = [''x'']
   \<and> subdirectory_names demo_env ''top'' [''x''] = []
   \<and> listdir demo_env ''data/'' = Inr [''mug'', ''notes.txt'']
   \<and> object_classes [''mug'', ''notes.txt''] = [''mug'', ''notes.txt'']
   \<and> subdirectory_names demo_env ''data/'' [''mug'', ''notes.txt''] = [''mug'']
   \<and> init demo_env ''data/'' ''RootSIFT'' ''BF'' = Inl OSError"
proof -
  have a: "subdirectory_names demo_env ''top'' [''x''] = []"
    "subdirectory_names demo_env ''data/'' [''mug'', ''notes.txt''] = [''mug'']"
    by (simp_all add: subdirectory_names_def join_path_def demo_env_def)
  have b: "object_classes [''mug'', ''notes.txt''] = [''mug'', ''notes.txt'']"
    by (simp add: object_classes_def basename_def)
  have c: "objects stray_detector = [''x'']"
    by (simp add: stray_detector_def)
  from a b c init_stray init_data listdir_demo(6) listdir_demo(9) show ?thesis by blast
qed

end
